theory Spec2Isabelle
  imports Complex_Main
begin

section \<open>The execution contract (L05 model layer)\<close>

text \<open>
  Python text and byte strings are both modelled as \<open>string\<close>. An Isabelle \<open>char\<close>
  is one byte, so text is covered up to code point 255; the statements proved below do
  not depend on what lies beyond.  Python's \<open>float\<close> is modelled as \<open>real\<close>: only
  the comparisons \<open>timeout > 0\<close> and \<open>duration_s >= 0\<close> and one subtraction of clock
  readings are used, no rounding behaviour.
\<close>

type_synonym bytes = string

datatype status = SUCCESS | FAILURE | TIMEOUT | ERROR

text \<open>\<open>ExecutionResult\<close> of \<open>execution_result.py\<close>.\<close>

record ExecutionResult =
  status :: status
  exit_code :: int
  duration_s :: real
  stdout :: string
  stderr :: string
  error_message :: "string option"

text \<open>\<open>ExecutionCommand\<close> of \<open>execution_command.py\<close>.\<close>

record ExecutionCommand =
  command :: string
  args :: "string list"
  cwd :: "string option"
  timeout :: real
  env_vars :: "string \<rightharpoonup> string"
  context_id :: string

text \<open>
  A pydantic \<open>ValidationError\<close> carries one entry per offending field: the field name and
  the error type (\<open>missing\<close>, \<open>greater_than\<close>, \<open>greater_than_equal\<close>).
\<close>

datatype validation_error = ValidationError "(string \<times> string) list"

text \<open>
  The keyword arguments given to the constructor \<open>ExecutionCommand(...)\<close>; \<open>None\<close> is an
  argument that was not passed.
\<close>

record command_fields =
  f_command :: "string option"
  f_args :: "string list option"
  f_cwd :: "string option"
  f_timeout :: "real option"
  f_env_vars :: "(string \<rightharpoonup> string) option"
  f_context_id :: "string option"

text \<open>
  Field by field, as declared: \<open>command\<close> and \<open>context_id\<close> are required
  (\<open>Field(...)\<close>) and carry no further constraint; \<open>timeout\<close> defaults to 300.0 and is
  constrained by \<open>gt=0\<close>; \<open>args\<close>, \<open>env_vars\<close> and \<open>cwd\<close> have defaults.
\<close>

definition command_errors :: "command_fields \<Rightarrow> (string \<times> string) list" where
  "command_errors f =
     (case f_command f of None \<Rightarrow> [(''command'', ''missing'')] | Some _ \<Rightarrow> []) @
     (case f_timeout f of None \<Rightarrow> []
        | Some t \<Rightarrow> if t > 0 then [] else [(''timeout'', ''greater_than'')]) @
     (case f_context_id f of None \<Rightarrow> [(''context_id'', ''missing'')] | Some _ \<Rightarrow> [])"

definition ExecutionCommand_init :: "command_fields \<Rightarrow> validation_error + ExecutionCommand" where
  "ExecutionCommand_init f =
     (case (command_errors f, f_command f, f_context_id f) of
        ([], Some c, Some i) \<Rightarrow>
          Inr \<lparr> command = c,
                args = (case f_args f of None \<Rightarrow> [] | Some a \<Rightarrow> a),
                cwd = f_cwd f,
                timeout = (case f_timeout f of None \<Rightarrow> 300 | Some t \<Rightarrow> t),
                env_vars = (case f_env_vars f of None \<Rightarrow> Map.empty | Some e \<Rightarrow> e),
                context_id = i \<rparr>
      | (errs, _, _) \<Rightarrow> Inl (ValidationError errs))"

text \<open>
  \<open>ExecutionResult.model_validate\<close> on the dictionary a runner has filled in.  The
  dictionary's \<open>status\<close> is always one of the four literals and its other entries have the
  declared types, so the one constraint that can fail is \<open>ge=0\<close> on \<open>duration_s\<close>.
\<close>

definition model_validate :: "ExecutionResult \<Rightarrow> validation_error + ExecutionResult" where
  "model_validate kw =
     (if duration_s kw \<ge> 0 then Inr kw
      else Inl (ValidationError [(''duration_s'', ''greater_than_equal'')]))"

section \<open>Library behaviour the runners rely on\<close>

text \<open>
  Three library functions are taken as parameters: how a \<open>float\<close> prints inside an
  f-string, \<open>bytes.decode()\<close> (\<open>None\<close> stands for \<open>UnicodeDecodeError\<close>) and
  \<open>bytes.decode(errors="ignore")\<close>.
\<close>

record runtime =
  str_float :: "real \<Rightarrow> string"
  decode_strict :: "bytes \<Rightarrow> string option"
  decode_ignore :: "bytes \<Rightarrow> string"

text \<open>
  A raised exception: whether it is a \<open>FileNotFoundError\<close>, some other subclass of
  \<open>Exception\<close>, or a \<open>BaseException\<close> outside \<open>Exception\<close> (\<open>KeyboardInterrupt\<close>,
  \<open>CancelledError\<close>); then \<open>type(e).__name__\<close> and \<open>str(e)\<close>.
\<close>

datatype exn_kind = FileNotFoundKind | ExceptionKind | BaseExceptionKind

datatype exn = Exn (exn_class: exn_kind) (exn_name: string) (exn_str: string)

text \<open>\<open>str.strip()\<close>: the characters for which \<open>str.isspace\<close> holds, up to code point 255.\<close>

definition isspace :: "char \<Rightarrow> bool" where
  "isspace c = (c \<in> set [CHR 0x09, CHR 0x0A, CHR 0x0B, CHR 0x0C, CHR 0x0D,
                          CHR 0x1C, CHR 0x1D, CHR 0x1E, CHR 0x1F, CHR 0x20,
                          CHR 0x85, CHR 0xA0])"

definition strip :: "string \<Rightarrow> string" where
  "strip s = rev (dropWhile isspace (rev (dropWhile isspace s)))"

text \<open>How an \<open>int\<close> prints inside an f-string.\<close>

fun str_nat :: "nat \<Rightarrow> string" where
  "str_nat n = (if n < 10 then [''0123456789'' ! n]
                else str_nat (n div 10) @ [''0123456789'' ! (n mod 10)])"

declare str_nat.simps [simp del]

definition str_int :: "int \<Rightarrow> string" where
  "str_int i = (if i < 0 then CHR ''-'' # str_nat (nat (- i)) else str_nat (nat i))"

text \<open>Python's \<open>needle in haystack\<close> on strings.\<close>

fun contains :: "string \<Rightarrow> string \<Rightarrow> bool" where
  "contains [] needle = (needle = [])"
| "contains (c # cs) needle = (take (length needle) (c # cs) = needle \<or> contains cs needle)"

text \<open>The two readings of \<open>time.time()\<close>: before the child is started and in \<open>finally\<close>.\<close>

record clock =
  started :: real
  finished :: real

text \<open>The dictionary \<open>result_kwargs\<close> as both runners initialise it.\<close>

definition initial_kwargs :: ExecutionResult where
  "initial_kwargs =
     \<lparr> status = FAILURE, exit_code = - 1, duration_s = 0,
       stdout = [], stderr = [], error_message = None \<rparr>"

section \<open>The synchronous runner (\<open>sync_execution.py\<close>)\<close>

text \<open>
  What \<open>subprocess.run\<close> does is the environment's answer: it returns a
  \<open>CompletedProcess\<close> (return code, and the two outputs as text since \<open>text=True\<close>),
  raises \<open>TimeoutExpired\<close> carrying what was captured, or raises something else.  The
  captured output of a \<open>TimeoutExpired\<close> is \<open>None\<close>, a byte string (POSIX) or text
  (Windows).
\<close>

datatype captured = NoOutput | BytesOut bytes | TextOut string

datatype run_outcome =
    Completed int string string
  | TimeoutExpired captured captured
  | RunRaises exn

record sync_env = clock +
  run :: run_outcome

text \<open>
  \<open>e.stdout.decode() if e.stdout else ""\<close>; \<open>None\<close> means the expression raises
  (\<open>UnicodeDecodeError\<close> on bytes, \<open>AttributeError\<close> on text, which has no \<open>decode\<close>).
\<close>

definition decode_captured :: "runtime \<Rightarrow> captured \<Rightarrow> string option" where
  "decode_captured rt x =
     (case x of
        NoOutput \<Rightarrow> Some []
      | BytesOut b \<Rightarrow> if b = [] then Some [] else decode_strict rt b
      | TextOut s \<Rightarrow> if s = [] then Some [] else None)"

text \<open>
  The \<open>try\<close> statement with its handlers.  An exception that no handler catches, or
  that is raised inside a handler, leaves \<open>result_kwargs\<close> as it is at that point: the
  \<open>return\<close> in \<open>finally\<close> discards the exception.
\<close>

definition sync_try :: "runtime \<Rightarrow> ExecutionCommand \<Rightarrow> run_outcome \<Rightarrow> ExecutionResult" where
  "sync_try rt c out =
     (case out of
        Completed rc so se \<Rightarrow>
          (let kw = initial_kwargs\<lparr>stdout := strip so, stderr := strip se, exit_code := rc\<rparr>
           in if rc = 0 then kw\<lparr>status := SUCCESS\<rparr>
              else kw\<lparr>status := FAILURE,
                      error_message :=
                        Some (''Command exited with non-zero code '' @ str_int rc @ ''.'')\<rparr>)
      | TimeoutExpired so se \<Rightarrow>
          (let kw = initial_kwargs\<lparr>status := TIMEOUT,
                      error_message :=
                        Some (''Command timed out after '' @ str_float rt (timeout c) @
                              '' seconds. Process was terminated.'')\<rparr>
           in case decode_captured rt so of
                None \<Rightarrow> kw
              | Some o1 \<Rightarrow>
                  (case decode_captured rt se of
                     None \<Rightarrow> kw\<lparr>stdout := o1\<rparr>
                   | Some e1 \<Rightarrow> kw\<lparr>stdout := o1, stderr := e1\<rparr>))
      | RunRaises x \<Rightarrow>
          (case exn_class x of
             FileNotFoundKind \<Rightarrow>
               initial_kwargs\<lparr>status := FAILURE,
                 error_message :=
                   Some (''Executable not found: '' @ command c @ ''. Check PATH or cwd.'')\<rparr>
           | ExceptionKind \<Rightarrow>
               initial_kwargs\<lparr>status := FAILURE,
                 error_message :=
                   Some (''Unexpected system error during execution: '' @ exn_name x @
                         '': '' @ exn_str x)\<rparr>
           | BaseExceptionKind \<Rightarrow> initial_kwargs))"

text \<open>The \<open>finally\<close> block: the duration, then \<open>return ExecutionResult.model_validate(...)\<close>.\<close>

definition execute_sync ::
  "runtime \<Rightarrow> ExecutionCommand \<Rightarrow> sync_env \<Rightarrow> validation_error + ExecutionResult" where
  "execute_sync rt c env =
     model_validate ((sync_try rt c (run env))\<lparr>duration_s := finished env - started env\<rparr>)"

section \<open>The asynchronous runner (\<open>async_execution.py\<close>)\<close>

text \<open>
  The environment's answers: \<open>create_subprocess_exec\<close> returns a process or raises;
  \<open>wait_for(process.communicate(), timeout)\<close> returns the two byte strings (the process
  has then exited with a return code), raises \<open>TimeoutError\<close>, or raises something else;
  \<open>late_returncode\<close> is \<open>process.returncode\<close> as \<open>finally\<close> reads it when
  \<open>communicate\<close> did not return.
\<close>

datatype spawn_outcome = Spawned | SpawnRaises exn

datatype communicate_outcome =
    Exited bytes bytes int
  | WaitTimeout
  | CommRaises exn

record async_env = clock +
  spawn :: spawn_outcome
  communicate :: communicate_outcome
  late_returncode :: "int option"

text \<open>
  \<open>_terminate_process\<close>: the signals it sends, given \<open>process.returncode\<close> on entry and
  whether \<open>terminate()\<close> raises.  \<open>returncode\<close> is only updated by the event loop, so
  the second test reads the same value as the first.  It touches the child only, never
  \<open>result_kwargs\<close>.
\<close>

datatype signal = SIGTERM | SIGKILL

definition terminate_process :: "int option \<Rightarrow> bool \<Rightarrow> signal list" where
  "terminate_process returncode terminate_raises =
     (if returncode = None
      then (if terminate_raises then [] else [SIGTERM, SIGKILL])
      else [])"

text \<open>
  The local variables of \<open>execute_async\<close>; \<open>process\<close> is \<open>None\<close> or a process with its
  \<open>returncode\<close>.
\<close>

record async_locals =
  kwargs :: ExecutionResult
  process :: "int option option"
  stdout_bytes :: bytes
  stderr_bytes :: bytes

text \<open>
  The nested \<open>try\<close> statements.  \<open>create_subprocess_exec\<close> stands in the outer
  \<open>try\<close>, before the inner one, so what it raises reaches the outer handler only.
\<close>

definition async_try :: "runtime \<Rightarrow> ExecutionCommand \<Rightarrow> async_env \<Rightarrow> async_locals" where
  "async_try rt c env =
     (let l0 = \<lparr> kwargs = initial_kwargs, process = None, stdout_bytes = [], stderr_bytes = [] \<rparr>
      in case spawn env of
           SpawnRaises x \<Rightarrow>
             (if exn_class x = BaseExceptionKind then l0
              else l0\<lparr>kwargs := initial_kwargs\<lparr>status := FAILURE,
                        error_message :=
                          Some (''Failed to start process: '' @ exn_name x @ '': '' @ exn_str x)\<rparr>\<rparr>)
         | Spawned \<Rightarrow>
             (case communicate env of
                Exited so se rc \<Rightarrow>
                  l0\<lparr>process := Some (Some rc), stdout_bytes := so, stderr_bytes := se,
                     kwargs := initial_kwargs\<lparr>exit_code := rc\<rparr>\<rparr>
              | WaitTimeout \<Rightarrow>
                  l0\<lparr>process := Some (late_returncode env),
                     kwargs := initial_kwargs\<lparr>status := TIMEOUT,
                       error_message :=
                         Some (''Command timed out after '' @ str_float rt (timeout c) @
                               '' seconds.'')\<rparr>\<rparr>
              | CommRaises x \<Rightarrow>
                  (case exn_class x of
                     FileNotFoundKind \<Rightarrow>
                       l0\<lparr>process := Some (late_returncode env),
                          kwargs := initial_kwargs\<lparr>status := FAILURE,
                            error_message :=
                              Some (''Executable not found: '' @ command c @
                                    ''. Check PATH or cwd.'')\<rparr>\<rparr>
                   | ExceptionKind \<Rightarrow>
                       l0\<lparr>process := Some (late_returncode env),
                          kwargs := initial_kwargs\<lparr>status := FAILURE,
                            error_message :=
                              Some (''Unexpected system error during execution: '' @
                                    exn_name x @ '': '' @ exn_str x)\<rparr>\<rparr>
                   | BaseExceptionKind \<Rightarrow> l0\<lparr>process := Some (late_returncode env)\<rparr>)))"

text \<open>
  The final status check of the \<open>finally\<close> block.  \<open>not result_kwargs["error_message"]\<close>
  holds for \<open>None\<close> and for the empty string.
\<close>

definition final_status_check :: "int option option \<Rightarrow> ExecutionResult \<Rightarrow> ExecutionResult" where
  "final_status_check p kw =
     (case p of
        Some (Some rc) \<Rightarrow>
          if status kw \<notin> set [TIMEOUT, FAILURE]
          then (if rc = 0 then kw\<lparr>status := SUCCESS\<rparr>
                else (let kw' = kw\<lparr>status := FAILURE\<rparr>
                      in if error_message kw' = None \<or> error_message kw' = Some []
                         then kw'\<lparr>error_message :=
                                   Some (''Command exited with non-zero code '' @ str_int rc @ ''.'')\<rparr>
                         else kw'))
          else kw
      | _ \<Rightarrow> kw)"

definition async_finally ::
  "runtime \<Rightarrow> async_env \<Rightarrow> async_locals \<Rightarrow> validation_error + ExecutionResult" where
  "async_finally rt env l =
     (let kw1 = (kwargs l)\<lparr>duration_s := finished env - started env\<rparr>;
          kw2 = (if stdout_bytes l \<noteq> []
                 then kw1\<lparr>stdout := strip (decode_ignore rt (stdout_bytes l))\<rparr> else kw1);
          kw3 = (if stderr_bytes l \<noteq> []
                 then kw2\<lparr>stderr := strip (decode_ignore rt (stderr_bytes l))\<rparr> else kw2)
      in model_validate (final_status_check (process l) kw3))"

definition execute_async ::
  "runtime \<Rightarrow> ExecutionCommand \<Rightarrow> async_env \<Rightarrow> validation_error + ExecutionResult" where
  "execute_async rt c env = async_finally rt env (async_try rt c env)"

text \<open>
  A concrete runtime for the worked examples.  It agrees with CPython on what they use:
  ASCII byte strings decode to themselves, and a whole-number \<open>float\<close> prints as the
  integer followed by \<open>.0\<close>.
\<close>

definition ascii_runtime :: runtime where
  "ascii_runtime =
     \<lparr> str_float = (\<lambda>r. str_int \<lfloor>r\<rfloor> @ ''.0''),
       decode_strict = (\<lambda>b. if list_all (\<lambda>c. of_char c < (128::nat)) b then Some b else None),
       decode_ignore = filter (\<lambda>c. of_char c < (128::nat)) \<rparr>"

section \<open>The workflow manager (\<open>workflow_manager.py\<close>)\<close>

datatype wf_status = INITIALIZED | RUNNING | WF_SUCCESS | COMPLETED_WITH_ERRORS | FATAL_ERROR

text \<open>
  The dictionary \<open>current_state\<close>: \<open>"status"\<close>, \<open>"results"\<close> (keyed by \<open>context_id\<close>)
  and, once a fatal error was caught, \<open>"error"\<close>, kept here as the exception itself.
\<close>

record workflow_state =
  wf_status :: wf_status
  results :: "string \<rightharpoonup> ExecutionResult"
  wf_error :: "validation_error option"

text \<open>\<open>task_semaphore\<close> is the counter of the \<open>asyncio.Semaphore\<close>: the free permits.\<close>

record WorkflowManager =
  job_config :: "string \<rightharpoonup> int"
  current_state :: workflow_state
  max_concurrent_tasks :: int
  task_semaphore :: nat

text \<open>
  \<open>__init__\<close>.  \<open>asyncio.Semaphore(value)\<close> raises \<open>ValueError\<close> for a negative value.
\<close>

definition WorkflowManager_init :: "(string \<rightharpoonup> int) \<Rightarrow> exn + WorkflowManager" where
  "WorkflowManager_init cfg =
     (let n = (case cfg ''max_concurrent_tasks'' of None \<Rightarrow> 10 | Some k \<Rightarrow> k)
      in if n < 0
         then Inl (Exn ExceptionKind ''ValueError'' ''Semaphore initial value must be >= 0'')
         else Inr \<lparr> job_config = cfg,
                    current_state = \<lparr> wf_status = INITIALIZED, results = Map.empty,
                                      wf_error = None \<rparr>,
                    max_concurrent_tasks = n,
                    task_semaphore = nat n \<rparr>)"

text \<open>
  The event loop runs one coroutine at a time and switches only at an \<open>await\<close>.  Each
  \<open>run_single_step\<close> coroutine is therefore in one of four places: waiting for the
  semaphore, inside \<open>execute_async\<close> holding a permit, returned, or left by an exception.
  \<open>first_exception\<close> is the exception \<open>asyncio.gather\<close> will raise: the first one a
  task raised.
\<close>

datatype task = Waiting | Running | Returned ExecutionResult | Raised validation_error

record scheduler =
  manager :: WorkflowManager
  tasks :: "task list"
  first_exception :: "validation_error option"

text \<open>
  \<open>run_single_step\<close>, first part: \<open>async with self.task_semaphore\<close> is entered, which
  takes a permit; possible only while the counter is positive.
\<close>

definition run_single_step_enter :: "nat \<Rightarrow> scheduler \<Rightarrow> scheduler option" where
  "run_single_step_enter i s =
     (if i < length (tasks s) \<and> tasks s ! i = Waiting \<and> 0 < task_semaphore (manager s)
      then Some (s\<lparr>manager := (manager s)\<lparr>task_semaphore := task_semaphore (manager s) - 1\<rparr>,
                   tasks := (tasks s)[i := Running]\<rparr>)
      else None)"

text \<open>
  \<open>run_single_step\<close>, second part: \<open>execute_async\<close> has come back.  Its result is stored
  under the command's \<open>context_id\<close> and returned; an exception skips the store.  Either
  way the \<open>async with\<close> block is left and the permit given back.
\<close>

definition run_single_step_leave ::
  "runtime \<Rightarrow> ExecutionCommand \<Rightarrow> async_env \<Rightarrow> nat \<Rightarrow> scheduler \<Rightarrow> scheduler option" where
  "run_single_step_leave rt command_data env i s =
     (if i < length (tasks s) \<and> tasks s ! i = Running
      then (let m = (manager s)\<lparr>task_semaphore := task_semaphore (manager s) + 1\<rparr>
            in case execute_async rt command_data env of
                 Inr result \<Rightarrow>
                   Some (s\<lparr>manager :=
                             m\<lparr>current_state :=
                                 (current_state m)\<lparr>results :=
                                   (results (current_state m))(context_id command_data \<mapsto> result)\<rparr>\<rparr>,
                           tasks := (tasks s)[i := Returned result]\<rparr>)
               | Inl e \<Rightarrow>
                   Some (s\<lparr>manager := m,
                           tasks := (tasks s)[i := Raised e],
                           first_exception :=
                             (case first_exception s of None \<Rightarrow> Some e | Some e0 \<Rightarrow> Some e0)\<rparr>))
      else None)"

text \<open>
  What the event loop does next is not decided by the program: any waiting task may be
  admitted while a permit is free, any running one may finish.  A schedule lists these
  choices; \<open>envs i\<close> is the environment's behaviour towards the \<open>i\<close>-th command.
\<close>

datatype event = Enter nat | Leave nat

definition step ::
  "runtime \<Rightarrow> ExecutionCommand list \<Rightarrow> (nat \<Rightarrow> async_env) \<Rightarrow> event \<Rightarrow> scheduler
     \<Rightarrow> scheduler option" where
  "step rt command_list envs ev s =
     (case ev of
        Enter i \<Rightarrow> run_single_step_enter i s
      | Leave i \<Rightarrow>
          if i < length command_list
          then run_single_step_leave rt (command_list ! i) (envs i) i s
          else None)"

fun run_events ::
  "runtime \<Rightarrow> ExecutionCommand list \<Rightarrow> (nat \<Rightarrow> async_env) \<Rightarrow> event list \<Rightarrow> scheduler
     \<Rightarrow> scheduler option" where
  "run_events rt command_list envs [] s = Some s"
| "run_events rt command_list envs (ev # evs) s =
     (case step rt command_list envs ev s of
        None \<Rightarrow> None
      | Some s' \<Rightarrow> run_events rt command_list envs evs s')"

text \<open>
  \<open>run_workflow\<close> up to its \<open>await\<close>: the status becomes \<open>RUNNING\<close> and one task per
  command is created.
\<close>

definition dispatch :: "WorkflowManager \<Rightarrow> ExecutionCommand list \<Rightarrow> scheduler" where
  "dispatch m command_list =
     \<lparr> manager = m\<lparr>current_state := (current_state m)\<lparr>wf_status := RUNNING\<rparr>\<rparr>,
       tasks = replicate (length command_list) Waiting,
       first_exception = None \<rparr>"

text \<open>
  \<open>await asyncio.gather(*tasks)\<close>: raises the first exception a task raised, returns the
  list of results once every task has returned, and is still waiting (\<open>None\<close>) otherwise.
\<close>

fun returned :: "task list \<Rightarrow> ExecutionResult list option" where
  "returned [] = Some []"
| "returned (Returned r # ts) = (case returned ts of None \<Rightarrow> None | Some rs \<Rightarrow> Some (r # rs))"
| "returned (_ # ts) = None"

definition gather :: "scheduler \<Rightarrow> (validation_error + ExecutionResult list) option" where
  "gather s =
     (case first_exception s of
        Some e \<Rightarrow> Some (Inl e)
      | None \<Rightarrow> (case returned (tasks s) of None \<Rightarrow> None | Some rs \<Rightarrow> Some (Inr rs)))"

text \<open>The number of \<open>execute_async\<close> calls in flight.\<close>

definition in_flight :: "scheduler \<Rightarrow> nat" where
  "in_flight s = length (filter (\<lambda>t. t = Running) (tasks s))"

subsection \<open>The manager over an arbitrary runner\<close>

text \<open>
  \<open>run_single_step\<close> hands its command to \<open>execution_core.execute_async\<close> and uses
  nothing of that call but what comes back: a result, or an exception.  To say what the
  manager does with the results for every result a runner may report, the call is made
  a parameter, \<open>runner\<close>.  The next three definitions are \<open>run_single_step_leave\<close>,
  \<open>step\<close> and \<open>run_events\<close> once more, word for word, with \<open>runner\<close> in the place of
  \<open>execute_async\<close>.
\<close>

type_synonym runner = "ExecutionCommand \<Rightarrow> async_env \<Rightarrow> validation_error + ExecutionResult"

definition run_single_step_leave_with ::
  "runner \<Rightarrow> ExecutionCommand \<Rightarrow> async_env \<Rightarrow> nat \<Rightarrow> scheduler \<Rightarrow> scheduler option" where
  "run_single_step_leave_with runner command_data env i s =
     (if i < length (tasks s) \<and> tasks s ! i = Running
      then (let m = (manager s)\<lparr>task_semaphore := task_semaphore (manager s) + 1\<rparr>
            in case runner command_data env of
                 Inr result \<Rightarrow>
                   Some (s\<lparr>manager :=
                             m\<lparr>current_state :=
                                 (current_state m)\<lparr>results :=
                                   (results (current_state m))(context_id command_data \<mapsto> result)\<rparr>\<rparr>,
                           tasks := (tasks s)[i := Returned result]\<rparr>)
               | Inl e \<Rightarrow>
                   Some (s\<lparr>manager := m,
                           tasks := (tasks s)[i := Raised e],
                           first_exception :=
                             (case first_exception s of None \<Rightarrow> Some e | Some e0 \<Rightarrow> Some e0)\<rparr>))
      else None)"

definition step_with ::
  "runner \<Rightarrow> ExecutionCommand list \<Rightarrow> (nat \<Rightarrow> async_env) \<Rightarrow> event \<Rightarrow> scheduler
     \<Rightarrow> scheduler option" where
  "step_with runner command_list envs ev s =
     (case ev of
        Enter i \<Rightarrow> run_single_step_enter i s
      | Leave i \<Rightarrow>
          if i < length command_list
          then run_single_step_leave_with runner (command_list ! i) (envs i) i s
          else None)"

fun run_events_with ::
  "runner \<Rightarrow> ExecutionCommand list \<Rightarrow> (nat \<Rightarrow> async_env) \<Rightarrow> event list \<Rightarrow> scheduler
     \<Rightarrow> scheduler option" where
  "run_events_with runner command_list envs [] s = Some s"
| "run_events_with runner command_list envs (ev # evs) s =
     (case step_with runner command_list envs ev s of
        None \<Rightarrow> None
      | Some s' \<Rightarrow> run_events_with runner command_list envs evs s')"

text \<open>
  \<open>run_workflow\<close> under a schedule.  \<open>None\<close>: the schedule is not one the event loop can
  follow, or \<open>gather\<close> is still waiting at its end, so the call has not returned.  The
  program is the instance at \<open>execute_async\<close>.
\<close>

definition run_workflow_with ::
  "runner \<Rightarrow> WorkflowManager \<Rightarrow> ExecutionCommand list \<Rightarrow> (nat \<Rightarrow> async_env) \<Rightarrow> event list
     \<Rightarrow> workflow_state option" where
  "run_workflow_with runner m command_list envs schedule =
     (case run_events_with runner command_list envs schedule (dispatch m command_list) of
        None \<Rightarrow> None
      | Some s \<Rightarrow>
          (case gather s of
             None \<Rightarrow> None
           | Some (Inr rs) \<Rightarrow>
               Some ((current_state (manager s))
                       \<lparr>wf_status := (if \<exists>r \<in> set rs. status r \<noteq> SUCCESS
                                      then COMPLETED_WITH_ERRORS else WF_SUCCESS)\<rparr>)
           | Some (Inl e) \<Rightarrow>
               Some ((current_state (manager s))\<lparr>wf_status := FATAL_ERROR, wf_error := Some e\<rparr>)))"

definition run_workflow ::
  "runtime \<Rightarrow> WorkflowManager \<Rightarrow> ExecutionCommand list \<Rightarrow> (nat \<Rightarrow> async_env) \<Rightarrow> event list
     \<Rightarrow> workflow_state option" where
  "run_workflow rt m command_list envs schedule =
     run_workflow_with (execute_async rt) m command_list envs schedule"

section \<open>Worked examples\<close>

definition echo_request :: ExecutionCommand where
  "echo_request = \<lparr> command = ''echo'', args = [''hello''], cwd = None, timeout = 5,
                      env_vars = Map.empty, context_id = ''job-1'' \<rparr>"

definition false_request :: ExecutionCommand where
  "false_request = \<lparr> command = ''false'', args = [], cwd = None, timeout = 5,
                       env_vars = Map.empty, context_id = ''job-2'' \<rparr>"

definition slow_request :: ExecutionCommand where
  "slow_request = \<lparr> command = ''sh'', args = [''-c'', ''echo hello; sleep 10''], cwd = None,
                      timeout = 1, env_vars = Map.empty, context_id = ''job-3'' \<rparr>"

definition missing_request :: ExecutionCommand where
  "missing_request = \<lparr> command = ''/no/such/binary'', args = [], cwd = None, timeout = 5,
                         env_vars = Map.empty, context_id = ''job-4'' \<rparr>"

definition locked_request :: ExecutionCommand where
  "locked_request = \<lparr> command = ''/etc/hostname'', args = [], cwd = None, timeout = 5,
                        env_vars = Map.empty, context_id = ''job-5'' \<rparr>"

text \<open>The exceptions the operating system answers the last two commands with.\<close>

definition no_such_file :: exn where
  "no_such_file =
     Exn FileNotFoundKind ''FileNotFoundError''
       (''[Errno 2] No such file or directory: '' @ [CHR 0x27] @ ''/no/such/binary'' @ [CHR 0x27])"

definition permission_denied :: exn where
  "permission_denied =
     Exn ExceptionKind ''PermissionError''
       (''[Errno 13] Permission denied: '' @ [CHR 0x27] @ ''/etc/hostname'' @ [CHR 0x27])"

text \<open>The child prints \<open>hello\<close> and exits with code 0 after one second.\<close>

definition exits_zero :: async_env where
  "exits_zero = \<lparr> started = 0, finished = 1, spawn = Spawned,
                   communicate = Exited ''hello\<newline>'' [] 0, late_returncode = None \<rparr>"

text \<open>The child prints nothing and exits with code 1.\<close>

definition exits_one :: async_env where
  "exits_one = \<lparr> started = 0, finished = 1, spawn = Spawned,
                  communicate = Exited [] [] 1, late_returncode = None \<rparr>"

text \<open>The child is still running when the timeout of one second is over.\<close>

definition times_out :: async_env where
  "times_out = \<lparr> started = 0, finished = 1, spawn = Spawned,
                  communicate = WaitTimeout, late_returncode = None \<rparr>"

definition times_out_sync :: sync_env where
  "times_out_sync = \<lparr> started = 0, finished = 1,
                       run = TimeoutExpired (BytesOut ''hello\<newline>'') NoOutput \<rparr>"

definition spawn_missing :: async_env where
  "spawn_missing = \<lparr> started = 0, finished = 1, spawn = SpawnRaises no_such_file,
                      communicate = WaitTimeout, late_returncode = None \<rparr>"

definition run_missing :: sync_env where
  "run_missing = \<lparr> started = 0, finished = 1, run = RunRaises no_such_file \<rparr>"

definition run_denied :: sync_env where
  "run_denied = \<lparr> started = 0, finished = 1, run = RunRaises permission_denied \<rparr>"

text \<open>
  The same answers from the operating system, with the wall clock set back by one second
  between the two readings of \<open>time.time()\<close>.
\<close>

definition set_back_sync :: sync_env where
  "set_back_sync = \<lparr> started = 1, finished = 0, run = Completed 0 ''hello\<newline>'' [] \<rparr>"

definition set_back :: async_env where
  "set_back = \<lparr> started = 1, finished = 0, spawn = Spawned,
                 communicate = Exited ''hello\<newline>'' [] 0, late_returncode = None \<rparr>"

definition run_missing_set_back :: sync_env where
  "run_missing_set_back = \<lparr> started = 1, finished = 0, run = RunRaises no_such_file \<rparr>"

text \<open>A manager with two permits, and the environment of a batch of two commands.\<close>

definition two_permits :: "string \<rightharpoonup> int" where
  "two_permits = [''max_concurrent_tasks'' \<mapsto> 2]"

definition batch_envs :: "nat \<Rightarrow> async_env" where
  "batch_envs i = (if i = 0 then exits_zero else exits_one)"

lemmas runner_defs =
  execute_sync_def sync_try_def decode_captured_def execute_async_def async_try_def
  async_finally_def final_status_check_def initial_kwargs_def model_validate_def Let_def

lemmas example_defs =
  echo_request_def false_request_def slow_request_def missing_request_def locked_request_def
  no_such_file_def permission_denied_def exits_zero_def exits_one_def times_out_def
  times_out_sync_def spawn_missing_def run_missing_def run_denied_def ascii_runtime_def
  strip_def isspace_def str_int_def set_back_sync_def set_back_def run_missing_set_back_def

text \<open>
  Three invariants of the scheduler, used in the proofs below.  The first holds for every
  manager: a task that has returned \<open>r\<close> got \<open>r\<close> from the runner on its own command,
  and an exception waiting in \<open>gather\<close> was raised by the runner on one of the
  commands.  The second holds when \<open>results\<close> was empty at the start and says where its
  entries come from: a task that has returned left an entry under its \<open>context_id\<close>, and
  every entry is the result some task with that \<open>context_id\<close> returned.  The third holds
  when no two commands share a \<open>context_id\<close>: the entry of a returned task is its own
  result.
\<close>

definition tasks_returned ::
  "runner \<Rightarrow> ExecutionCommand list \<Rightarrow> (nat \<Rightarrow> async_env) \<Rightarrow> scheduler \<Rightarrow> bool" where
  "tasks_returned runner cmds envs s \<longleftrightarrow>
     length (tasks s) = length cmds
     \<and> (\<forall>i r. i < length cmds \<and> tasks s ! i = Returned r \<longrightarrow>
            runner (cmds ! i) (envs i) = Inr r)
     \<and> (\<forall>e. first_exception s = Some e \<longrightarrow>
            (\<exists>i<length cmds. runner (cmds ! i) (envs i) = Inl e))"

definition results_recorded ::
  "runner \<Rightarrow> ExecutionCommand list \<Rightarrow> (nat \<Rightarrow> async_env) \<Rightarrow> scheduler \<Rightarrow> bool" where
  "results_recorded runner cmds envs s \<longleftrightarrow>
     length (tasks s) = length cmds
     \<and> (\<forall>i r. i < length cmds \<and> tasks s ! i = Returned r \<longrightarrow>
            runner (cmds ! i) (envs i) = Inr r
            \<and> context_id (cmds ! i) \<in> dom (results (current_state (manager s))))
     \<and> (\<forall>k r. results (current_state (manager s)) k = Some r \<longrightarrow>
            (\<exists>i<length cmds. k = context_id (cmds ! i) \<and> tasks s ! i = Returned r))
     \<and> (\<forall>e. first_exception s = Some e \<longrightarrow>
            (\<exists>i<length cmds. runner (cmds ! i) (envs i) = Inl e))"

definition results_exact :: "ExecutionCommand list \<Rightarrow> scheduler \<Rightarrow> bool" where
  "results_exact cmds s \<longleftrightarrow>
     (\<forall>i r. i < length cmds \<and> tasks s ! i = Returned r \<longrightarrow>
        results (current_state (manager s)) (context_id (cmds ! i)) = Some r)"

text \<open>The manager that \<open>__init__\<close> builds from \<open>two_permits\<close>, and a batch of two commands.\<close>

definition two_permit_manager :: WorkflowManager where
  "two_permit_manager =
     \<lparr> job_config = two_permits,
       current_state = \<lparr> wf_status = INITIALIZED, results = Map.empty, wf_error = None \<rparr>,
       max_concurrent_tasks = 2, task_semaphore = 2 \<rparr>"

definition batch :: "ExecutionCommand list" where
  "batch = [echo_request, false_request]"

text \<open>What \<open>execute_async\<close> returns for the two commands of the batch.\<close>

definition echo_outcome :: ExecutionResult where
  "echo_outcome = \<lparr> status = FAILURE, exit_code = 0, duration_s = 1, stdout = ''hello'',
                      stderr = [], error_message = None \<rparr>"

definition false_outcome :: ExecutionResult where
  "false_outcome = \<lparr> status = FAILURE, exit_code = 1, duration_s = 1, stdout = [],
                       stderr = [], error_message = None \<rparr>"

text \<open>The batch with the wall clock set back during the first command's call.\<close>

definition set_back_envs :: "nat \<Rightarrow> async_env" where
  "set_back_envs i = (if i = 0 then set_back else exits_one)"

text \<open>
  The manager as \<open>run_workflow([false_request])\<close> leaves it (lemma
  \<open>reused_manager_state\<close>), to be used for a second batch.
\<close>

definition false_envs :: "nat \<Rightarrow> async_env" where
  "false_envs i = exits_one"

definition reused_manager :: WorkflowManager where
  "reused_manager =
     two_permit_manager
       \<lparr>current_state := \<lparr> wf_status = COMPLETED_WITH_ERRORS,
                           results = [''job-2'' \<mapsto> false_outcome], wf_error = None \<rparr>\<rparr>"

text \<open>
  A runner that reports for every command what the execution contract asks of a child
  that exits with code 0.
\<close>

definition success_outcome :: ExecutionResult where
  "success_outcome = \<lparr> status = SUCCESS, exit_code = 0, duration_s = 1, stdout = [],
                         stderr = [], error_message = None \<rparr>"

definition succeeding_runner :: runner where
  "succeeding_runner command_data env = Inr success_outcome"

lemmas workflow_defs =
  run_workflow_def gather_def dispatch_def step_def run_single_step_enter_def
  run_single_step_leave_def batch_def batch_envs_def two_permit_manager_def

lemmas workflow_with_defs =
  run_workflow_with_def gather_def dispatch_def step_with_def run_single_step_enter_def
  run_single_step_leave_with_def batch_def batch_envs_def two_permit_manager_def
  set_back_envs_def false_envs_def reused_manager_def echo_outcome_def false_outcome_def
  success_outcome_def succeeding_runner_def

section \<open>Claims about the execution contract\<close>

lemma ExecutionCommand_init_errors:
  "command_errors f \<noteq> [] \<Longrightarrow> ExecutionCommand_init f = Inl (ValidationError (command_errors f))"
  by (cases "command_errors f") (simp_all add: ExecutionCommand_init_def)

text \<open>
  C7 (as amended).  Constructing an \<open>ExecutionCommand\<close> with \<open>timeout <= 0\<close> fails at once
  with a \<open>ValidationError\<close> that names the field, so no such request reaches a runner.
\<close>

theorem ExecutionCommand_rejects_nonpositive_timeout:
  assumes "f_timeout f = Some t" and "t \<le> 0"
  shows "ExecutionCommand_init f = Inl (ValidationError (command_errors f))
         \<and> (''timeout'', ''greater_than'') \<in> set (command_errors f)"
proof -
  from assms have mem: "(''timeout'', ''greater_than'') \<in> set (command_errors f)"
    by (simp add: command_errors_def)
  then have "command_errors f \<noteq> []" by auto
  with mem show ?thesis by (simp add: ExecutionCommand_init_errors)
qed

theorem ExecutionCommand_rejects_nonpositive_timeout_witness:
  "ExecutionCommand_init
     \<lparr> f_command = Some ''echo'', f_args = None, f_cwd = None, f_timeout = Some 0,
       f_env_vars = None, f_context_id = Some ''job-1'' \<rparr>
   = Inl (ValidationError [(''timeout'', ''greater_than'')])"
proof -
  let ?f = "\<lparr> f_command = Some ''echo'', f_args = None, f_cwd = None, f_timeout = Some (0::real),
              f_env_vars = None, f_context_id = Some ''job-1'' \<rparr>"
  have h1: "f_timeout ?f = Some 0" by simp
  have h2: "(0::real) \<le> 0" by simp
  have "command_errors ?f = [(''timeout'', ''greater_than'')]" by (simp add: command_errors_def)
  with ExecutionCommand_rejects_nonpositive_timeout [OF h1 h2] show ?thesis by simp
qed

text \<open>
  C7 as stated also promises that an empty \<open>command\<close> is rejected.  The field carries no
  length constraint: the empty string is accepted.
\<close>

theorem ExecutionCommand_accepts_empty_command:
  "ExecutionCommand_init
     \<lparr> f_command = Some [], f_args = None, f_cwd = None, f_timeout = Some 5,
       f_env_vars = None, f_context_id = Some ''job-1'' \<rparr>
   = Inr \<lparr> command = [], args = [], cwd = None, timeout = 5, env_vars = Map.empty,
           context_id = ''job-1'' \<rparr>"
  by (simp add: ExecutionCommand_init_def command_errors_def)

section \<open>Claims about the runners\<close>

lemma final_status_check_noop:
  "status kw = FAILURE \<or> status kw = TIMEOUT \<Longrightarrow> final_status_check p kw = kw"
  by (auto simp: final_status_check_def split: option.splits)

lemma final_status_check_duration: "duration_s (final_status_check p kw) = duration_s kw"
  by (simp add: final_status_check_def Let_def split: option.splits)

lemma async_try_status:
  "status (kwargs (async_try rt c env)) = FAILURE \<or> status (kwargs (async_try rt c env)) = TIMEOUT"
  by (simp add: async_try_def initial_kwargs_def Let_def
           split: spawn_outcome.splits communicate_outcome.splits exn_kind.splits)

lemma async_finally_status:
  assumes "status (kwargs l) = FAILURE \<or> status (kwargs l) = TIMEOUT"
    and "async_finally rt env l = Inr r"
  shows "status r = status (kwargs l)"
proof -
  let ?kw1 = "(kwargs l)\<lparr>duration_s := finished env - started env\<rparr>"
  let ?kw2 = "if stdout_bytes l \<noteq> []
              then ?kw1\<lparr>stdout := strip (decode_ignore rt (stdout_bytes l))\<rparr> else ?kw1"
  let ?kw3 = "if stderr_bytes l \<noteq> []
              then ?kw2\<lparr>stderr := strip (decode_ignore rt (stderr_bytes l))\<rparr> else ?kw2"
  have s3: "status ?kw3 = status (kwargs l)" by simp
  with assms(1) have "final_status_check (process l) ?kw3 = ?kw3"
    by (intro final_status_check_noop) simp
  with assms(2) have "r = ?kw3"
    by (simp add: async_finally_def Let_def model_validate_def split: if_splits)
  with s3 show ?thesis by simp
qed

text \<open>
  The status check at the end of \<open>execute_async\<close> runs only when the status is neither
  \<open>TIMEOUT\<close> nor \<open>FAILURE\<close>; the status starts as \<open>FAILURE\<close> and no branch sets it to
  anything else but \<open>TIMEOUT\<close>.  So the check never runs and \<open>SUCCESS\<close> is never
  returned.
\<close>

lemma execute_async_never_success:
  "execute_async rt c env = Inr r \<Longrightarrow> status r = FAILURE \<or> status r = TIMEOUT"
  using async_try_status [of rt c env] async_finally_status [of "async_try rt c env" rt env r]
  by (auto simp: execute_async_def)

lemma execute_async_exit:
  assumes "spawn env = Spawned" "communicate env = Exited so se rc" "started env \<le> finished env"
  shows "execute_async rt c env =
           Inr \<lparr> status = FAILURE, exit_code = rc, duration_s = finished env - started env,
                 stdout = (if so = [] then [] else strip (decode_ignore rt so)),
                 stderr = (if se = [] then [] else strip (decode_ignore rt se)),
                 error_message = None \<rparr>"
  using assms by (simp add: runner_defs)

lemma execute_sync_exit:
  assumes "run env = Completed rc so se" "started env \<le> finished env"
  shows "execute_sync rt c env =
           Inr \<lparr> status = (if rc = 0 then SUCCESS else FAILURE), exit_code = rc,
                 duration_s = finished env - started env,
                 stdout = strip so, stderr = strip se,
                 error_message =
                   (if rc = 0 then None
                    else Some (''Command exited with non-zero code '' @ str_int rc @ ''.'')) \<rparr>"
  using assms by (simp add: runner_defs)

text \<open>
  C1.  The child of \<open>echo hello\<close> is started, prints and exits with code 0 within the
  timeout.  \<open>execute_async\<close> returns exit code 0 with status \<open>FAILURE\<close>, where the
  contract (and \<open>execute_sync\<close>, see \<open>execute_sync_exit\<close>) gives \<open>SUCCESS\<close>.
\<close>

theorem execute_async_zero_exit_is_failure:
  "execute_async ascii_runtime echo_request exits_zero
   = Inr \<lparr> status = FAILURE, exit_code = 0, duration_s = 1, stdout = ''hello'', stderr = [],
           error_message = None \<rparr>"
  by (simp add: runner_defs example_defs)

text \<open>
  C2 (as amended).  As long as the second reading of \<open>time.time()\<close> is not earlier than
  the first, neither runner lets an exception out: whatever the spawn, the wait or a
  handler raises, an \<open>ExecutionResult\<close> is returned.
\<close>

theorem runners_return_a_result:
  assumes "started senv \<le> finished senv" and "started aenv \<le> finished aenv"
  shows "(\<exists>r. execute_sync rt c senv = Inr r) \<and> (\<exists>r. execute_async rt c aenv = Inr r)"
  using assms
  by (simp add: execute_sync_def execute_async_def async_finally_def model_validate_def Let_def
                final_status_check_duration)

theorem runners_return_a_result_witness:
  "started run_missing \<le> finished run_missing \<and> started spawn_missing \<le> finished spawn_missing
   \<and> (\<exists>r. execute_sync ascii_runtime missing_request run_missing = Inr r)
   \<and> (\<exists>r. execute_async ascii_runtime missing_request spawn_missing = Inr r)"
proof -
  have h1: "started run_missing \<le> finished run_missing" by (simp add: run_missing_def)
  have h2: "started spawn_missing \<le> finished spawn_missing" by (simp add: spawn_missing_def)
  from runners_return_a_result [OF h1 h2, where rt = ascii_runtime and c = missing_request]
    h1 h2
  show ?thesis by simp
qed

text \<open>
  C2 as stated makes this promise without condition.  \<open>time.time()\<close> reads the wall
  clock, which can be set back while the child runs.  The duration is then negative,
  \<open>ExecutionResult.model_validate\<close> rejects it (\<open>duration_s\<close> is declared \<open>ge=0\<close>), and
  since that call stands inside \<open>finally\<close>, after every handler, its \<open>ValidationError\<close>
  reaches the caller of either runner, here for a child that printed \<open>hello\<close> and exited
  with code 0.
\<close>

theorem runners_raise_when_clock_set_back:
  "execute_sync ascii_runtime echo_request set_back_sync
     = Inl (ValidationError [(''duration_s'', ''greater_than_equal'')])
   \<and> execute_async ascii_runtime echo_request set_back
     = Inl (ValidationError [(''duration_s'', ''greater_than_equal'')])"
  by (simp add: runner_defs example_defs)

text \<open>
  C3.  The child of \<open>false\<close> exits with code 1.  \<open>execute_async\<close> returns status
  \<open>FAILURE\<close> and no error message, so a status other than \<open>SUCCESS\<close> comes without the
  message the contract attaches to it.
\<close>

theorem execute_async_failure_without_message:
  "execute_async ascii_runtime false_request exits_one
   = Inr \<lparr> status = FAILURE, exit_code = 1, duration_s = 1, stdout = [], stderr = [],
           error_message = None \<rparr>"
  by (simp add: runner_defs example_defs)

lemma contains_prefix: "contains (n @ zs) n"
proof (cases "n @ zs")
  case Nil
  then show ?thesis by simp
next
  case (Cons a list)
  have "take (length n) (a # list) = n" unfolding Cons [symmetric] by simp
  then show ?thesis unfolding Cons by simp
qed

lemma contains_append: "contains ys n \<Longrightarrow> contains (xs @ ys) n"
  by (induction xs) auto

lemma contains_middle: "contains (xs @ n @ zs) n"
  by (rule contains_append) (rule contains_prefix)

text \<open>
  C8 (as amended).  Let the child not be started: the spawn call raises
  \<open>FileNotFoundError\<close>, \<open>PermissionError\<close> or any other exception of class \<open>Exception\<close>,
  and let the wall clock not be set back during the call.  Then each runner returns status
  \<open>FAILURE\<close>, exit code -1 and an error message; when the exception is
  \<open>FileNotFoundError\<close>, the message of \<open>execute_sync\<close> is
  \<open>Executable not found: <command>. Check PATH or cwd.\<close>, which names the command and
  contains \<open>not found\<close>.
\<close>

theorem spawn_failure_outcome:
  assumes "started senv \<le> finished senv" and "started aenv \<le> finished aenv"
    and "run senv = RunRaises x" and "exn_class x \<noteq> BaseExceptionKind"
    and "spawn aenv = SpawnRaises y" and "exn_class y \<noteq> BaseExceptionKind"
  shows "\<exists>rs ra ms ma.
           execute_sync rt c senv = Inr rs \<and> execute_async rt c aenv = Inr ra
           \<and> status rs = FAILURE \<and> exit_code rs = - 1 \<and> error_message rs = Some ms
           \<and> status ra = FAILURE \<and> exit_code ra = - 1 \<and> error_message ra = Some ma
           \<and> (exn_class x = FileNotFoundKind \<longrightarrow>
                ms = ''Executable not found: '' @ command c @ ''. Check PATH or cwd.''
                \<and> contains ms ''not found'' \<and> contains ms (command c))"
proof -
  have nf: "contains (''Executable not found: '' @ command c @ ''. Check PATH or cwd.'') ''not found''"
    using contains_middle [of "''Executable ''" "''not found''" "'': '' @ command c @ ''. Check PATH or cwd.''"]
    by simp
  have cm: "contains (''Executable not found: '' @ command c @ ''. Check PATH or cwd.'') (command c)"
    by (rule contains_middle)
  from assms(2,5,6) obtain ra ma where
    a: "execute_async rt c aenv = Inr ra" "status ra = FAILURE" "exit_code ra = - 1"
       "error_message ra = Some ma"
    by (simp add: runner_defs)
  from assms(1,3,4) nf cm obtain rs ms where
    s: "execute_sync rt c senv = Inr rs" "status rs = FAILURE" "exit_code rs = - 1"
       "error_message rs = Some ms"
       "exn_class x = FileNotFoundKind \<longrightarrow>
          ms = ''Executable not found: '' @ command c @ ''. Check PATH or cwd.''
          \<and> contains ms ''not found'' \<and> contains ms (command c)"
    by (cases "exn_class x") (simp_all add: runner_defs)
  from a s show ?thesis by blast
qed

theorem spawn_failure_outcome_witness:
  "\<exists>rs ra ms ma.
     execute_sync ascii_runtime missing_request run_missing = Inr rs
     \<and> execute_async ascii_runtime missing_request spawn_missing = Inr ra
     \<and> status rs = FAILURE \<and> exit_code rs = - 1 \<and> error_message rs = Some ms
     \<and> status ra = FAILURE \<and> exit_code ra = - 1 \<and> error_message ra = Some ma
     \<and> ms = ''Executable not found: /no/such/binary. Check PATH or cwd.''
     \<and> contains ms ''not found'' \<and> contains ms ''/no/such/binary''"
proof -
  have h1: "started run_missing \<le> finished run_missing" by (simp add: run_missing_def)
  have h2: "started spawn_missing \<le> finished spawn_missing" by (simp add: spawn_missing_def)
  have h3: "run run_missing = RunRaises no_such_file" by (simp add: run_missing_def)
  have h4: "exn_class no_such_file \<noteq> BaseExceptionKind" by (simp add: no_such_file_def)
  have h5: "spawn spawn_missing = SpawnRaises no_such_file" by (simp add: spawn_missing_def)
  have h6: "exn_class no_such_file = FileNotFoundKind" by (simp add: no_such_file_def)
  have h7: "command missing_request = ''/no/such/binary''" by (simp add: missing_request_def)
  from spawn_failure_outcome [OF h1 h2 h3 h4 h5 h4, of ascii_runtime missing_request] h6 h7
  show ?thesis by simp
qed

text \<open>
  C8 as stated asks for \<open>not found\<close> in the message whenever the command names no
  runnable executable, and for an outcome in every such case.  A file that exists without
  execute permission makes \<open>subprocess.run\<close> raise \<open>PermissionError\<close>, which
  \<open>execute_sync\<close> reports through its general handler: the message has no
  \<open>not found\<close> in it.  And for the executable that does not exist, a wall clock set back
  during the call leaves the caller with the \<open>ValidationError\<close> of \<open>duration_s\<close> instead
  of an outcome.
\<close>

theorem execute_sync_spawn_failure_without_not_found:
  "execute_sync ascii_runtime locked_request run_denied
   = Inr \<lparr> status = FAILURE, exit_code = - 1, duration_s = 1, stdout = [], stderr = [],
           error_message =
             Some (''Unexpected system error during execution: PermissionError: '' @
                   ''[Errno 13] Permission denied: '' @ [CHR 0x27] @ ''/etc/hostname'' @ [CHR 0x27]) \<rparr>
   \<and> \<not> contains (''Unexpected system error during execution: PermissionError: '' @
                   ''[Errno 13] Permission denied: '' @ [CHR 0x27] @ ''/etc/hostname'' @ [CHR 0x27])
                  ''not found''
   \<and> execute_sync ascii_runtime missing_request run_missing_set_back
     = Inl (ValidationError [(''duration_s'', ''greater_than_equal'')])"
  by (simp add: runner_defs example_defs)

text \<open>
  For the missing executable itself, \<open>execute_async\<close> does not reach its
  \<open>FileNotFoundError\<close> handler: the exception is raised by \<open>create_subprocess_exec\<close>,
  outside the inner \<open>try\<close>, and the outer handler words the message differently.
\<close>

lemma execute_async_missing_executable_message:
  "execute_async ascii_runtime missing_request spawn_missing
   = Inr \<lparr> status = FAILURE, exit_code = - 1, duration_s = 1, stdout = [], stderr = [],
           error_message =
             Some (''Failed to start process: FileNotFoundError: '' @
                   ''[Errno 2] No such file or directory: '' @ [CHR 0x27] @ ''/no/such/binary'' @ [CHR 0x27]) \<rparr>
   \<and> \<not> contains (''Failed to start process: FileNotFoundError: '' @
                   ''[Errno 2] No such file or directory: '' @ [CHR 0x27] @ ''/no/such/binary'' @ [CHR 0x27])
                  ''not found''"
  by (simp add: runner_defs example_defs)

text \<open>
  C9.  The child prints \<open>hello\<close> and a newline, then outlives the timeout.
  \<open>execute_sync\<close> returns the captured bytes decoded but not stripped: the newline is
  still there, where every other branch of both runners applies \<open>strip\<close>.
\<close>

theorem execute_sync_timeout_output_not_stripped:
  "execute_sync ascii_runtime slow_request times_out_sync
   = Inr \<lparr> status = TIMEOUT, exit_code = - 1, duration_s = 1, stdout = ''hello\<newline>'',
           stderr = [],
           error_message = Some ''Command timed out after 1.0 seconds. Process was terminated.'' \<rparr>
   \<and> strip ''hello\<newline>'' = ''hello''"
  by (simp add: runner_defs example_defs str_nat.simps)

lemma async_try_timeout_bytes:
  "status (kwargs (async_try rt c env)) = TIMEOUT \<Longrightarrow>
     stdout_bytes (async_try rt c env) = [] \<and> stderr_bytes (async_try rt c env) = [] \<and>
     stdout (kwargs (async_try rt c env)) = [] \<and> stderr (kwargs (async_try rt c env)) = []"
  by (simp add: async_try_def initial_kwargs_def Let_def
           split: spawn_outcome.splits communicate_outcome.splits exn_kind.splits if_splits)

text \<open>
  C10.  Whenever \<open>execute_async\<close> returns status \<open>TIMEOUT\<close>, both \<open>stdout\<close> and
  \<open>stderr\<close> of the result are empty: the byte buffers are assigned only by a
  \<open>communicate\<close> that returned.
\<close>

theorem execute_async_timeout_output_empty:
  assumes "execute_async rt c env = Inr r" and "status r = TIMEOUT"
  shows "stdout r = [] \<and> stderr r = []"
proof -
  let ?l = "async_try rt c env"
  let ?kw = "(kwargs ?l)\<lparr>duration_s := finished env - started env\<rparr>"
  from assms(1) have fin: "async_finally rt env ?l = Inr r" by (simp add: execute_async_def)
  with async_try_status [of rt c env] have "status r = status (kwargs ?l)"
    by (rule async_finally_status)
  with assms(2) have "status (kwargs ?l) = TIMEOUT" by simp
  then have b: "stdout_bytes ?l = []" "stderr_bytes ?l = []"
    "stdout (kwargs ?l) = []" "stderr (kwargs ?l) = []" "status (kwargs ?l) = TIMEOUT"
    using async_try_timeout_bytes by blast+
  then have "final_status_check (process ?l) ?kw = ?kw"
    by (intro final_status_check_noop) simp
  with fin b have "r = ?kw"
    by (simp add: async_finally_def Let_def model_validate_def split: if_splits)
  with b show ?thesis by simp
qed

theorem execute_async_timeout_output_empty_witness:
  "execute_async ascii_runtime slow_request times_out
     = Inr \<lparr> status = TIMEOUT, exit_code = - 1, duration_s = 1, stdout = [], stderr = [],
             error_message = Some ''Command timed out after 1.0 seconds.'' \<rparr>
   \<and> stdout \<lparr> status = TIMEOUT, exit_code = - 1, duration_s = 1, stdout = [], stderr = [],
             error_message = Some ''Command timed out after 1.0 seconds.'' \<rparr> = []"
proof -
  let ?r = "\<lparr> status = TIMEOUT, exit_code = - 1, duration_s = 1, stdout = [], stderr = [],
              error_message = Some ''Command timed out after 1.0 seconds.'' \<rparr>"
  have h1: "execute_async ascii_runtime slow_request times_out = Inr ?r"
    by (simp add: runner_defs example_defs str_nat.simps)
  have h2: "status ?r = TIMEOUT" by simp
  from execute_async_timeout_output_empty [OF h1 h2] h1 show ?thesis by simp
qed

section \<open>Claims about the workflow manager\<close>

lemma filter_update_count:
  "i < length xs \<Longrightarrow>
     length (filter P (xs[i := y])) + (if P (xs ! i) then 1 else 0)
       = length (filter P xs) + (if P y then 1 else 0)"
proof (induction xs arbitrary: i)
  case Nil
  then show ?case by simp
next
  case (Cons x xs)
  show ?case
  proof (cases i)
    case 0
    then show ?thesis by simp
  next
    case (Suc j)
    with Cons.prems have "j < length xs" by simp
    from Cons.IH [OF this] Suc show ?thesis by (cases "P x") simp_all
  qed
qed

text \<open>Permits held plus permits free stay constant: a task takes one to run and gives it back.\<close>

lemma enter_permits:
  assumes "run_single_step_enter i s = Some s'"
  shows "in_flight s' + task_semaphore (manager s') = in_flight s + task_semaphore (manager s)
         \<and> max_concurrent_tasks (manager s') = max_concurrent_tasks (manager s)"
proof -
  from assms have i: "i < length (tasks s)" and w: "tasks s ! i = Waiting"
    and p: "0 < task_semaphore (manager s)"
    and s': "s' = s\<lparr>manager := (manager s)\<lparr>task_semaphore := task_semaphore (manager s) - 1\<rparr>,
                    tasks := (tasks s)[i := Running]\<rparr>"
    by (auto simp: run_single_step_enter_def split: if_splits)
  from filter_update_count [OF i, of "\<lambda>t. t = Running" Running] w
  have "length (filter (\<lambda>t. t = Running) ((tasks s)[i := Running]))
          = length (filter (\<lambda>t. t = Running) (tasks s)) + 1"
    by simp
  with p s' show ?thesis by (simp add: in_flight_def)
qed

lemma leave_permits:
  assumes "run_single_step_leave rt c env i s = Some s'"
  shows "in_flight s' + task_semaphore (manager s') = in_flight s + task_semaphore (manager s)
         \<and> max_concurrent_tasks (manager s') = max_concurrent_tasks (manager s)"
proof -
  from assms have i: "i < length (tasks s)" and w: "tasks s ! i = Running"
    by (auto simp: run_single_step_leave_def split: if_splits)
  have cnt: "length (filter (\<lambda>t. t = Running) ((tasks s)[i := y])) + 1
          = length (filter (\<lambda>t. t = Running) (tasks s))" if "y \<noteq> Running" for y
    using filter_update_count [OF i, of "\<lambda>t. t = Running" y] w that by simp
  from assms i w show ?thesis
    using cnt [of "Returned r" for r] cnt [of "Raised e" for e]
    by (auto simp: run_single_step_leave_def in_flight_def Let_def split: sum.splits)
qed

lemma step_permits:
  assumes "step rt cmds envs ev s = Some s'"
  shows "in_flight s' + task_semaphore (manager s') = in_flight s + task_semaphore (manager s)
         \<and> max_concurrent_tasks (manager s') = max_concurrent_tasks (manager s)"
  using assms enter_permits leave_permits
  by (cases ev) (auto simp: step_def split: if_splits)

lemma run_events_permits:
  "run_events rt cmds envs evs s = Some s' \<Longrightarrow>
     in_flight s' + task_semaphore (manager s') = in_flight s + task_semaphore (manager s)
     \<and> max_concurrent_tasks (manager s') = max_concurrent_tasks (manager s)"
proof (induction evs arbitrary: s)
  case Nil
  then show ?case by simp
next
  case (Cons ev evs)
  then obtain s1 where s1: "step rt cmds envs ev s = Some s1"
    and rest: "run_events rt cmds envs evs s1 = Some s'"
    by (auto split: option.splits)
  from Cons.IH [OF rest] step_permits [OF s1] show ?case by simp
qed

lemma dispatch_permits:
  assumes "WorkflowManager_init cfg = Inr m"
  shows "in_flight (dispatch m cmds) = 0"
    and "task_semaphore (manager (dispatch m cmds)) = nat (max_concurrent_tasks m)"
    and "max_concurrent_tasks (manager (dispatch m cmds)) = max_concurrent_tasks m"
  using assms
  by (auto simp: WorkflowManager_init_def dispatch_def in_flight_def Let_def split: if_splits)

lemma init_two_permits: "WorkflowManager_init two_permits = Inr two_permit_manager"
  by (simp add: WorkflowManager_init_def two_permits_def two_permit_manager_def)

text \<open>
  C4.  Take a manager as \<open>__init__\<close> builds it and any sequence of scheduling events after
  \<open>run_workflow\<close> has created its tasks.  In the state reached, the number of
  \<open>execute_async\<close> calls in flight is at most \<open>max_concurrent_tasks\<close>.  Each such call
  owns at most the one child it started, so the same bound holds for the children.
\<close>

theorem in_flight_never_exceeds_max_concurrent_tasks:
  assumes "WorkflowManager_init cfg = Inr m"
    and "run_events rt cmds envs evs (dispatch m cmds) = Some s"
  shows "in_flight s \<le> nat (max_concurrent_tasks m)"
  using run_events_permits [OF assms(2)] dispatch_permits [OF assms(1), of cmds] by simp

theorem in_flight_never_exceeds_max_concurrent_tasks_witness:
  "WorkflowManager_init two_permits = Inr two_permit_manager
   \<and> (\<exists>s. run_events ascii_runtime batch batch_envs [Enter 1, Enter 0]
             (dispatch two_permit_manager batch) = Some s
          \<and> in_flight s = 2
          \<and> in_flight s \<le> nat (max_concurrent_tasks two_permit_manager))"
proof -
  obtain s where h2: "run_events ascii_runtime batch batch_envs [Enter 1, Enter 0]
                        (dispatch two_permit_manager batch) = Some s"
    and n: "in_flight s = 2"
    by (simp add: workflow_defs in_flight_def)
  from in_flight_never_exceeds_max_concurrent_tasks [OF init_two_permits h2] h2 n
    init_two_permits
  show ?thesis by blast
qed

text \<open>With both permits taken, a third task is not admitted.\<close>

lemma third_task_waits:
  "run_events ascii_runtime [echo_request, false_request, slow_request] batch_envs
     [Enter 0, Enter 1, Enter 2]
     (dispatch two_permit_manager [echo_request, false_request, slow_request]) = None"
  by (simp add: workflow_defs)

text \<open>
  At \<open>execute_async\<close> the definitions over a runner are those of the program, step by
  step, so that \<open>run_workflow\<close> runs the events of \<open>run_events\<close>.
\<close>

lemma run_single_step_leave_instance:
  "run_single_step_leave rt c env i s = run_single_step_leave_with (execute_async rt) c env i s"
  by (simp add: run_single_step_leave_def run_single_step_leave_with_def)

lemma step_instance:
  "step rt cmds envs ev s = step_with (execute_async rt) cmds envs ev s"
  by (cases ev) (simp_all add: step_def step_with_def run_single_step_leave_instance)

lemma run_events_instance:
  "run_events rt cmds envs evs s = run_events_with (execute_async rt) cmds envs evs s"
  by (induction evs arbitrary: s) (simp_all add: step_instance split: option.splits)

lemma run_workflow_instance:
  "run_workflow rt m cmds envs schedule
     = run_workflow_with (execute_async rt) m cmds envs schedule"
  by (simp add: run_workflow_def)

lemma run_workflow_unfold:
  "run_workflow rt m cmds envs schedule =
     (case run_events rt cmds envs schedule (dispatch m cmds) of
        None \<Rightarrow> None
      | Some s \<Rightarrow>
          (case gather s of
             None \<Rightarrow> None
           | Some (Inr rs) \<Rightarrow>
               Some ((current_state (manager s))
                       \<lparr>wf_status := (if \<exists>r \<in> set rs. status r \<noteq> SUCCESS
                                      then COMPLETED_WITH_ERRORS else WF_SUCCESS)\<rparr>)
           | Some (Inl e) \<Rightarrow>
               Some ((current_state (manager s))\<lparr>wf_status := FATAL_ERROR, wf_error := Some e\<rparr>)))"
  by (simp add: run_workflow_def run_workflow_with_def run_events_instance)

text \<open>How the scheduler's steps keep the three invariants, whatever the runner.\<close>

lemma enter_cases:
  assumes "run_single_step_enter i s = Some s'"
  shows "i < length (tasks s) \<and> tasks s ! i = Waiting
         \<and> tasks s' = (tasks s)[i := Running]
         \<and> results (current_state (manager s')) = results (current_state (manager s))
         \<and> first_exception s' = first_exception s"
  using assms by (auto simp: run_single_step_enter_def split: if_splits)

lemma leave_cases:
  assumes "run_single_step_leave_with runner c env i s = Some s'"
  obtains (ret) r where "runner c env = Inr r" "i < length (tasks s)"
      "tasks s ! i = Running" "tasks s' = (tasks s)[i := Returned r]"
      "results (current_state (manager s')) = (results (current_state (manager s)))(context_id c \<mapsto> r)"
      "first_exception s' = first_exception s"
    | (exc) e where "runner c env = Inl e" "i < length (tasks s)"
      "tasks s ! i = Running" "tasks s' = (tasks s)[i := Raised e]"
      "results (current_state (manager s')) = results (current_state (manager s))"
      "first_exception s' = Some (case first_exception s of None \<Rightarrow> e | Some e0 \<Rightarrow> e0)"
proof (cases "runner c env")
  case (Inl e)
  with assms show ?thesis
    by (intro exc [of e]) (auto simp: run_single_step_leave_with_def Let_def split: if_splits option.splits)
next
  case (Inr r)
  with assms show ?thesis
    by (intro ret [of r]) (auto simp: run_single_step_leave_with_def Let_def split: if_splits)
qed

lemma enter_recorded:
  assumes "run_single_step_enter j s = Some s'" and "results_recorded runner cmds envs s"
  shows "results_recorded runner cmds envs s'"
proof -
  from enter_cases [OF assms(1)] have j: "j < length (tasks s)" and w: "tasks s ! j = Waiting"
    and t: "tasks s' = (tasks s)[j := Running]"
    and r: "results (current_state (manager s')) = results (current_state (manager s))"
    and f: "first_exception s' = first_exception s" by auto
  from assms(2) have len: "length (tasks s) = length cmds" by (simp add: results_recorded_def)
  have same: "tasks s' ! i = Returned x \<longleftrightarrow> tasks s ! i = Returned x" if "i < length cmds" for i x
    using that t j w len by (cases "i = j") simp_all
  from assms(2) show ?thesis
    unfolding results_recorded_def r f using same t len by (simp; blast)
qed

lemma leave_recorded:
  assumes "run_single_step_leave_with runner (cmds ! j) (envs j) j s = Some s'" and "j < length cmds"
    and "results_recorded runner cmds envs s"
  shows "results_recorded runner cmds envs s'"
proof -
  from assms(3) have len: "length (tasks s) = length cmds" by (simp add: results_recorded_def)
  from assms(1) show ?thesis
  proof (cases rule: leave_cases)
    case (ret r)
    have other: "tasks s' ! i = Returned x \<longleftrightarrow> tasks s ! i = Returned x"
      if "i < length cmds" "i \<noteq> j" for i x
      using that ret len by simp
    have self: "tasks s' ! j = Returned r" using ret by simp
    have c2: "runner (cmds ! i) (envs i) = Inr x
              \<and> context_id (cmds ! i) \<in> dom (results (current_state (manager s')))"
      if "i < length cmds" "tasks s' ! i = Returned x" for i x
    proof (cases "i = j")
      case True
      with that self ret show ?thesis by simp
    next
      case False
      with that other have "tasks s ! i = Returned x" by simp
      with assms(3) that(1) show ?thesis by (auto simp: results_recorded_def ret(5))
    qed
    have c3: "\<exists>i<length cmds. k = context_id (cmds ! i) \<and> tasks s' ! i = Returned x"
      if "results (current_state (manager s')) k = Some x" for k x
    proof (cases "k = context_id (cmds ! j)")
      case True
      with that ret have "x = r" by simp
      with True self assms(2) show ?thesis by blast
    next
      case False
      with that ret have "results (current_state (manager s)) k = Some x" by simp
      moreover from assms(3) have "\<forall>k r. results (current_state (manager s)) k = Some r \<longrightarrow>
            (\<exists>i<length cmds. k = context_id (cmds ! i) \<and> tasks s ! i = Returned r)"
        by (simp add: results_recorded_def)
      ultimately obtain i where i: "i < length cmds" "k = context_id (cmds ! i)"
        "tasks s ! i = Returned x" by blast
      with ret(3) have "i \<noteq> j" by auto
      with i other show ?thesis by blast
    qed
    from assms(3) have c4: "\<forall>e. first_exception s' = Some e \<longrightarrow>
            (\<exists>i<length cmds. runner (cmds ! i) (envs i) = Inl e)"
      by (simp add: results_recorded_def ret(6))
    from c2 c3 c4 len ret(4) show ?thesis unfolding results_recorded_def by (simp; blast)
  next
    case (exc e)
    have same: "tasks s' ! i = Returned x \<longleftrightarrow> tasks s ! i = Returned x"
      if "i < length cmds" for i x
      using that exc len by (cases "i = j") simp_all
    have c4: "\<exists>i<length cmds. runner (cmds ! i) (envs i) = Inl e'"
      if "first_exception s' = Some e'" for e'
    proof (cases "first_exception s")
      case None
      with that exc have "e' = e" by simp
      with exc(1) assms(2) show ?thesis by blast
    next
      case (Some e0)
      with that exc have "e' = e0" by simp
      with Some assms(3) show ?thesis by (simp add: results_recorded_def)
    qed
    from assms(3) c4 same len exc(4) show ?thesis
      unfolding results_recorded_def exc(5) by (simp; blast)
  qed
qed


lemma step_recorded:
  assumes "step_with runner cmds envs ev s = Some s'" and "results_recorded runner cmds envs s"
  shows "results_recorded runner cmds envs s'"
  using assms enter_recorded leave_recorded
  by (cases ev) (auto simp: step_with_def split: if_splits)

lemma run_events_recorded:
  "run_events_with runner cmds envs evs s = Some s' \<Longrightarrow> results_recorded runner cmds envs s
     \<Longrightarrow> results_recorded runner cmds envs s'"
proof (induction evs arbitrary: s)
  case Nil
  then show ?case by simp
next
  case (Cons ev evs)
  then obtain s1 where s1: "step_with runner cmds envs ev s = Some s1"
    and rest: "run_events_with runner cmds envs evs s1 = Some s'"
    by (auto split: option.splits)
  from step_recorded [OF s1 Cons.prems(2)] Cons.IH [OF rest] show ?case by simp
qed

lemma enter_exact:
  assumes "run_single_step_enter j s = Some s'" and "results_exact cmds s"
    and "length (tasks s) = length cmds"
  shows "results_exact cmds s'"
proof -
  from enter_cases [OF assms(1)] have j: "j < length (tasks s)" and w: "tasks s ! j = Waiting"
    and t: "tasks s' = (tasks s)[j := Running]"
    and r: "results (current_state (manager s')) = results (current_state (manager s))"
    by auto
  have same: "tasks s' ! i = Returned x \<longleftrightarrow> tasks s ! i = Returned x" if "i < length cmds" for i x
    using that t j w assms(3) by (cases "i = j") simp_all
  from assms(2) same show ?thesis unfolding results_exact_def r by blast
qed

lemma leave_exact:
  assumes "run_single_step_leave_with runner (cmds ! j) (envs j) j s = Some s'" and "j < length cmds"
    and "results_exact cmds s" and "length (tasks s) = length cmds"
    and "distinct (map context_id cmds)"
  shows "results_exact cmds s'"
proof -
  have ids: "context_id (cmds ! i) \<noteq> context_id (cmds ! j)"
    if "i < length cmds" "i \<noteq> j" for i
    using that assms(2,5) nth_eq_iff_index_eq [of "map context_id cmds" i j] by simp
  from assms(1) show ?thesis
  proof (cases rule: leave_cases)
    case (ret r)
    show ?thesis unfolding results_exact_def
    proof (intro allI impI)
      fix i x
      assume a: "i < length cmds \<and> tasks s' ! i = Returned x"
      show "results (current_state (manager s')) (context_id (cmds ! i)) = Some x"
      proof (cases "i = j")
        case True
        with a ret show ?thesis by simp
      next
        case False
        with a ret assms(4) have "tasks s ! i = Returned x" by simp
        with a assms(3) have "results (current_state (manager s)) (context_id (cmds ! i)) = Some x"
          by (simp add: results_exact_def)
        with ids [of i] a False show ?thesis by (simp add: ret(5))
      qed
    qed
  next
    case (exc e)
    have same: "tasks s' ! i = Returned x \<longleftrightarrow> tasks s ! i = Returned x"
      if "i < length cmds" for i x
      using that exc assms(4) by (cases "i = j") simp_all
    from assms(3) same show ?thesis unfolding results_exact_def exc(5) by blast
  qed
qed

lemma step_length:
  "step_with runner cmds envs ev s = Some s' \<Longrightarrow> length (tasks s') = length (tasks s)"
  by (cases ev)
     (auto simp: step_with_def run_single_step_enter_def run_single_step_leave_with_def Let_def
           split: if_splits sum.splits)

lemma step_exact:
  assumes "step_with runner cmds envs ev s = Some s'" and "results_exact cmds s"
    and "length (tasks s) = length cmds" and "distinct (map context_id cmds)"
  shows "results_exact cmds s'"
  using assms enter_exact leave_exact
  by (cases ev) (auto simp: step_with_def split: if_splits)

lemma run_events_exact:
  "run_events_with runner cmds envs evs s = Some s' \<Longrightarrow> results_exact cmds s
     \<Longrightarrow> length (tasks s) = length cmds \<Longrightarrow> distinct (map context_id cmds)
     \<Longrightarrow> results_exact cmds s'"
proof (induction evs arbitrary: s)
  case Nil
  then show ?case by simp
next
  case (Cons ev evs)
  then obtain s1 where s1: "step_with runner cmds envs ev s = Some s1"
    and rest: "run_events_with runner cmds envs evs s1 = Some s'"
    by (auto split: option.splits)
  from step_exact [OF s1 Cons.prems(2,3,4)] step_length [OF s1] Cons.prems(3,4)
    Cons.IH [OF rest]
  show ?case by simp
qed

lemma returned_nth:
  "returned ts = Some rs \<Longrightarrow>
     length rs = length ts \<and> (\<forall>i<length ts. ts ! i = Returned (rs ! i))"
proof (induction ts arbitrary: rs rule: returned.induct)
  case 1
  then show ?case by simp
next
  case (2 r ts)
  then obtain rs' where rs': "returned ts = Some rs'" and rs: "rs = r # rs'"
    by (auto split: option.splits)
  from "2.IH" [OF rs'] rs show ?case by (auto simp: nth_Cons split: nat.splits)
qed simp_all

lemma dispatch_recorded:
  assumes "results (current_state m) = Map.empty"
  shows "results_recorded runner cmds envs (dispatch m cmds)"
  using assms by (auto simp: dispatch_def results_recorded_def)

lemma dispatch_exact:
  "results_exact cmds (dispatch m cmds)" "length (tasks (dispatch m cmds)) = length cmds"
  by (auto simp: dispatch_def results_exact_def)

lemma init_results_empty:
  "WorkflowManager_init cfg = Inr m \<Longrightarrow> results (current_state m) = Map.empty"
  by (auto simp: WorkflowManager_init_def Let_def split: if_splits)

lemma enter_returned:
  assumes "run_single_step_enter j s = Some s'" and "tasks_returned runner cmds envs s"
  shows "tasks_returned runner cmds envs s'"
proof -
  from enter_cases [OF assms(1)] have j: "j < length (tasks s)" and w: "tasks s ! j = Waiting"
    and t: "tasks s' = (tasks s)[j := Running]"
    and f: "first_exception s' = first_exception s" by auto
  from assms(2) have len: "length (tasks s) = length cmds" by (simp add: tasks_returned_def)
  have same: "tasks s' ! i = Returned x \<longleftrightarrow> tasks s ! i = Returned x" if "i < length cmds" for i x
    using that t j w len by (cases "i = j") simp_all
  from assms(2) show ?thesis
    unfolding tasks_returned_def f using same t len by (simp; blast)
qed

lemma leave_returned:
  assumes "run_single_step_leave_with runner (cmds ! j) (envs j) j s = Some s'"
    and "j < length cmds" and "tasks_returned runner cmds envs s"
  shows "tasks_returned runner cmds envs s'"
proof -
  from assms(3) have len: "length (tasks s) = length cmds" by (simp add: tasks_returned_def)
  from assms(1) show ?thesis
  proof (cases rule: leave_cases)
    case (ret r)
    have c2: "runner (cmds ! i) (envs i) = Inr x"
      if "i < length cmds" "tasks s' ! i = Returned x" for i x
    proof (cases "i = j")
      case True
      with that ret len show ?thesis by simp
    next
      case False
      with that ret len have "tasks s ! i = Returned x" by simp
      with assms(3) that(1) show ?thesis by (simp add: tasks_returned_def)
    qed
    from assms(3) have c3: "\<forall>e. first_exception s' = Some e \<longrightarrow>
            (\<exists>i<length cmds. runner (cmds ! i) (envs i) = Inl e)"
      by (simp add: tasks_returned_def ret(6))
    from c2 c3 len ret(4) show ?thesis unfolding tasks_returned_def by (simp; blast)
  next
    case (exc e)
    have same: "tasks s ! i = Returned x" if "i < length cmds" "tasks s' ! i = Returned x" for i x
      using that exc len by (cases "i = j") simp_all
    have c2: "runner (cmds ! i) (envs i) = Inr x"
      if "i < length cmds" "tasks s' ! i = Returned x" for i x
      using same [OF that] that(1) assms(3) by (simp add: tasks_returned_def)
    have c3: "\<exists>i<length cmds. runner (cmds ! i) (envs i) = Inl e'"
      if "first_exception s' = Some e'" for e'
    proof (cases "first_exception s")
      case None
      with that exc have "e' = e" by simp
      with exc(1) assms(2) show ?thesis by blast
    next
      case (Some e0)
      with that exc have "e' = e0" by simp
      with Some assms(3) show ?thesis by (simp add: tasks_returned_def)
    qed
    from c2 c3 len exc(4) show ?thesis unfolding tasks_returned_def by (simp; blast)
  qed
qed

lemma step_returned:
  assumes "step_with runner cmds envs ev s = Some s'" and "tasks_returned runner cmds envs s"
  shows "tasks_returned runner cmds envs s'"
  using assms enter_returned leave_returned
  by (cases ev) (auto simp: step_with_def split: if_splits)

lemma run_events_returned:
  "run_events_with runner cmds envs evs s = Some s' \<Longrightarrow> tasks_returned runner cmds envs s
     \<Longrightarrow> tasks_returned runner cmds envs s'"
proof (induction evs arbitrary: s)
  case Nil
  then show ?case by simp
next
  case (Cons ev evs)
  then obtain s1 where s1: "step_with runner cmds envs ev s = Some s1"
    and rest: "run_events_with runner cmds envs evs s1 = Some s'"
    by (auto split: option.splits)
  from step_returned [OF s1 Cons.prems(2)] Cons.IH [OF rest] show ?case by simp
qed

lemma dispatch_returned: "tasks_returned runner cmds envs (dispatch m cmds)"
  by (auto simp: dispatch_def tasks_returned_def)

lemma execute_async_returns:
  "started env \<le> finished env \<Longrightarrow> \<exists>r. execute_async rt c env = Inr r"
  by (simp add: execute_async_def async_finally_def model_validate_def Let_def
                final_status_check_duration)

lemma run_workflowE:
  assumes "run_workflow_with runner m cmds envs schedule = Some st"
  obtains s where "run_events_with runner cmds envs schedule (dispatch m cmds) = Some s"
    and "(\<exists>rs. first_exception s = None \<and> returned (tasks s) = Some rs
            \<and> st = (current_state (manager s))
                      \<lparr>wf_status := (if \<exists>r \<in> set rs. status r \<noteq> SUCCESS
                                     then COMPLETED_WITH_ERRORS else WF_SUCCESS)\<rparr>)
         \<or> (\<exists>e. first_exception s = Some e
            \<and> st = (current_state (manager s))\<lparr>wf_status := FATAL_ERROR, wf_error := Some e\<rparr>)"
  using assms
  by (auto simp: run_workflow_with_def gather_def split: option.splits sum.splits)

text \<open>
  What the manager has in hand when \<open>run_workflow\<close> returns without a fatal error: the
  list \<open>gather\<close> returned, with one result per command, in the order of the commands,
  each the result the runner gave for that command.
\<close>

lemma run_workflow_gathered:
  assumes run: "run_workflow_with runner m cmds envs schedule = Some st"
    and ok: "wf_status st \<noteq> FATAL_ERROR"
  obtains s rs where "run_events_with runner cmds envs schedule (dispatch m cmds) = Some s"
    and "results st = results (current_state (manager s))"
    and "length rs = length cmds"
    and "\<forall>i<length cmds. tasks s ! i = Returned (rs ! i)"
    and "\<forall>i<length cmds. runner (cmds ! i) (envs i) = Inr (rs ! i)"
    and "wf_status st = (if \<exists>r \<in> set rs. status r \<noteq> SUCCESS
                          then COMPLETED_WITH_ERRORS else WF_SUCCESS)"
proof -
  from run obtain s where ev: "run_events_with runner cmds envs schedule (dispatch m cmds) = Some s"
    and fin: "(\<exists>rs. first_exception s = None \<and> returned (tasks s) = Some rs
            \<and> st = (current_state (manager s))
                      \<lparr>wf_status := (if \<exists>r \<in> set rs. status r \<noteq> SUCCESS
                                     then COMPLETED_WITH_ERRORS else WF_SUCCESS)\<rparr>)
         \<or> (\<exists>e. first_exception s = Some e
            \<and> st = (current_state (manager s))\<lparr>wf_status := FATAL_ERROR, wf_error := Some e\<rparr>)"
    by (rule run_workflowE)
  with ok obtain rs where rs: "returned (tasks s) = Some rs"
    and st: "wf_status st = (if \<exists>r \<in> set rs. status r \<noteq> SUCCESS
                              then COMPLETED_WITH_ERRORS else WF_SUCCESS)"
    and res: "results st = results (current_state (manager s))" by auto
  from run_events_returned [OF ev dispatch_returned]
  have ret: "tasks_returned runner cmds envs s" .
  then have len: "length (tasks s) = length cmds" by (simp add: tasks_returned_def)
  from returned_nth [OF rs] len
  have lrs: "length rs = length cmds"
    and all: "\<forall>i<length cmds. tasks s ! i = Returned (rs ! i)" by simp_all
  from ret all have out: "\<forall>i<length cmds. runner (cmds ! i) (envs i) = Inr (rs ! i)"
    by (simp add: tasks_returned_def)
  from ev res lrs all out st show ?thesis by (rule that)
qed

text \<open>
  C5 (as amended).  Let no two commands of the batch share a \<open>context_id\<close>, let
  \<open>results\<close> be empty when \<open>run_workflow\<close> is called (as \<open>__init__\<close> leaves it), and let
  \<open>run_workflow\<close> return with a status other than \<open>FATAL_ERROR\<close>.  Then, in whatever
  order the tasks were admitted and finished, the keys of \<open>results\<close> are exactly the
  \<open>context_id\<close>s of the batch, there are as many entries as commands, and each command's
  entry is the result \<open>execute_async\<close> gave for it.
\<close>

theorem run_workflow_results_complete:
  assumes fresh: "results (current_state m) = Map.empty"
    and dist: "distinct (map context_id cmds)"
    and run: "run_workflow rt m cmds envs schedule = Some st"
    and ok: "wf_status st \<noteq> FATAL_ERROR"
  shows "dom (results st) = context_id ` set cmds
         \<and> card (dom (results st)) = length cmds
         \<and> (\<forall>i<length cmds. \<exists>r. results st (context_id (cmds ! i)) = Some r
                \<and> execute_async rt (cmds ! i) (envs i) = Inr r)"
proof -
  from run have "run_workflow_with (execute_async rt) m cmds envs schedule = Some st"
    by (simp add: run_workflow_instance)
  from this ok obtain s rs
    where ev: "run_events_with (execute_async rt) cmds envs schedule (dispatch m cmds) = Some s"
    and res: "results st = results (current_state (manager s))"
    and all: "\<forall>i<length cmds. tasks s ! i = Returned (rs ! i)"
    and out: "\<forall>i<length cmds. execute_async rt (cmds ! i) (envs i) = Inr (rs ! i)"
    by (rule run_workflow_gathered)
  from run_events_recorded [OF ev dispatch_recorded [OF fresh]]
  have rec: "results_recorded (execute_async rt) cmds envs s" .
  from run_events_exact [OF ev dispatch_exact(1) dispatch_exact(2) dist]
  have ex: "results_exact cmds s" .
  have each: "results st (context_id (cmds ! i)) = Some (rs ! i)
              \<and> execute_async rt (cmds ! i) (envs i) = Inr (rs ! i)" if "i < length cmds" for i
    using that all out ex unfolding results_exact_def res by blast
  have sub: "dom (results st) \<subseteq> context_id ` set cmds"
  proof
    fix k assume "k \<in> dom (results st)"
    then obtain r where "results (current_state (manager s)) k = Some r" by (auto simp: res)
    with rec obtain i where "i < length cmds" "k = context_id (cmds ! i)"
      unfolding results_recorded_def by blast
    then show "k \<in> context_id ` set cmds" by auto
  qed
  have sup: "context_id ` set cmds \<subseteq> dom (results st)"
  proof
    fix k assume "k \<in> context_id ` set cmds"
    then obtain i where "i < length cmds" "k = context_id (cmds ! i)"
      by (auto simp: in_set_conv_nth)
    with each [of i] show "k \<in> dom (results st)" by auto
  qed
  from sub sup have d: "dom (results st) = context_id ` set cmds" by auto
  from dist have "card (context_id ` set cmds) = length cmds"
    using distinct_card [of "map context_id cmds"] by simp
  with d each show ?thesis by auto
qed

theorem run_workflow_results_complete_witness:
  "WorkflowManager_init two_permits = Inr two_permit_manager
   \<and> results (current_state two_permit_manager) = Map.empty
   \<and> distinct (map context_id batch)
   \<and> (\<exists>st. run_workflow ascii_runtime two_permit_manager batch batch_envs
               [Enter 1, Enter 0, Leave 1, Leave 0] = Some st
           \<and> wf_status st = COMPLETED_WITH_ERRORS
           \<and> dom (results st) = {''job-1'', ''job-2''}
           \<and> card (dom (results st)) = 2)"
proof -
  have h1: "results (current_state two_permit_manager) = Map.empty"
    by (rule init_results_empty [OF init_two_permits])
  have h2: "distinct (map context_id batch)"
    by (simp add: batch_def echo_request_def false_request_def)
  obtain st where h3: "run_workflow ascii_runtime two_permit_manager batch batch_envs
                         [Enter 1, Enter 0, Leave 1, Leave 0] = Some st"
    and c: "wf_status st = COMPLETED_WITH_ERRORS"
    by (simp add: workflow_defs workflow_with_defs runner_defs example_defs)
  from c have h4: "wf_status st \<noteq> FATAL_ERROR" by simp
  have ids: "context_id ` set batch = {''job-1'', ''job-2''}" "length batch = 2"
    by (simp_all add: batch_def echo_request_def false_request_def)
  from run_workflow_results_complete [OF h1 h2 h3 h4] ids h1 h2 h3 c init_two_permits
  show ?thesis by auto
qed

lemma reused_manager_state:
  "run_workflow ascii_runtime two_permit_manager [false_request] false_envs [Enter 0, Leave 0]
     = Some (current_state reused_manager)"
  by (simp add: workflow_defs workflow_with_defs runner_defs example_defs false_envs_def reused_manager_def
                false_outcome_def)

text \<open>
  C5 as stated speaks of every return of \<open>run_workflow\<close> and of the mapping as a whole.
  First batch below: the wall clock is set back during the call for \<open>job-1\<close>, so that
  \<open>execute_async\<close> raises (see C2); \<open>gather\<close> passes the exception on, \<open>run_workflow\<close>
  returns with status \<open>FATAL_ERROR\<close>, and \<open>results\<close> has an entry for \<open>job-2\<close> only.
  Second batch: the one command \<open>job-1\<close> is run on a manager that has already run
  \<open>job-2\<close>; \<open>results\<close> is never cleared, so it comes back with two entries.
\<close>

theorem run_workflow_results_omitted_or_left_over:
  "map context_id batch = [''job-1'', ''job-2'']
   \<and> run_workflow ascii_runtime two_permit_manager batch set_back_envs
       [Enter 0, Enter 1, Leave 1, Leave 0]
     = Some \<lparr> wf_status = FATAL_ERROR, results = [''job-2'' \<mapsto> false_outcome],
              wf_error = Some (ValidationError [(''duration_s'', ''greater_than_equal'')]) \<rparr>
   \<and> map context_id [echo_request] = [''job-1'']
   \<and> run_workflow ascii_runtime reused_manager [echo_request] batch_envs [Enter 0, Leave 0]
     = Some \<lparr> wf_status = COMPLETED_WITH_ERRORS,
              results = [''job-2'' \<mapsto> false_outcome, ''job-1'' \<mapsto> echo_outcome],
              wf_error = None \<rparr>"
  by (simp add: workflow_defs workflow_with_defs runner_defs example_defs set_back_envs_def reused_manager_def
                echo_outcome_def false_outcome_def)

text \<open>
  A fatal error has no other source than the one above: some command's call saw the
  clock set back.
\<close>

lemma run_workflow_fatal_error_cause:
  assumes "run_workflow rt m cmds envs schedule = Some st" and "wf_status st = FATAL_ERROR"
  shows "\<exists>i<length cmds. finished (envs i) < started (envs i)"
proof -
  from assms(1) have "run_workflow_with (execute_async rt) m cmds envs schedule = Some st"
    by (simp add: run_workflow_instance)
  then obtain s
    where ev: "run_events_with (execute_async rt) cmds envs schedule (dispatch m cmds) = Some s"
    and fin: "(\<exists>rs. first_exception s = None \<and> returned (tasks s) = Some rs
            \<and> st = (current_state (manager s))
                      \<lparr>wf_status := (if \<exists>r \<in> set rs. status r \<noteq> SUCCESS
                                     then COMPLETED_WITH_ERRORS else WF_SUCCESS)\<rparr>)
         \<or> (\<exists>e. first_exception s = Some e
            \<and> st = (current_state (manager s))\<lparr>wf_status := FATAL_ERROR, wf_error := Some e\<rparr>)"
    by (rule run_workflowE)
  with assms(2) obtain e where "first_exception s = Some e" by (auto split: if_splits)
  with run_events_returned [OF ev dispatch_returned]
  obtain i where i: "i < length cmds" "execute_async rt (cmds ! i) (envs i) = Inl e"
    unfolding tasks_returned_def by blast
  with execute_async_returns [of "envs i" rt "cmds ! i"]
  have "\<not> started (envs i) \<le> finished (envs i)" by auto
  with i(1) show ?thesis by auto
qed

text \<open>
  C6.  Let \<open>run_workflow\<close> return without a fatal error.  Then every command has
  resolved with a result: \<open>rs ! i\<close> is what the runner gave for the \<open>i\<close>-th command.
  The final status is \<open>COMPLETED_WITH_ERRORS\<close> if one of these results has a status
  other than \<open>SUCCESS\<close>, and \<open>SUCCESS\<close> if all of them have status \<open>SUCCESS\<close>.  They
  are the recorded results: when \<open>results\<close> was empty at the start and no two commands
  share a \<open>context_id\<close>, they are exactly the entries of \<open>results\<close>.  All this holds
  for every runner: for \<open>execute_async\<close>, and for one that reports \<open>SUCCESS\<close>, which
  \<open>execute_async\<close> never does (see C1).
\<close>

theorem run_workflow_final_status:
  assumes run: "run_workflow_with runner m cmds envs schedule = Some st"
    and ok: "wf_status st \<noteq> FATAL_ERROR"
  shows "\<exists>rs. length rs = length cmds
           \<and> (\<forall>i<length cmds. runner (cmds ! i) (envs i) = Inr (rs ! i))
           \<and> wf_status st = (if \<exists>r \<in> set rs. status r \<noteq> SUCCESS
                               then COMPLETED_WITH_ERRORS else WF_SUCCESS)
           \<and> (results (current_state m) = Map.empty \<and> distinct (map context_id cmds)
                \<longrightarrow> ran (results st) = set rs)"
proof -
  from run ok obtain s rs
    where ev: "run_events_with runner cmds envs schedule (dispatch m cmds) = Some s"
    and res: "results st = results (current_state (manager s))"
    and lrs: "length rs = length cmds"
    and all: "\<forall>i<length cmds. tasks s ! i = Returned (rs ! i)"
    and out: "\<forall>i<length cmds. runner (cmds ! i) (envs i) = Inr (rs ! i)"
    and st: "wf_status st = (if \<exists>r \<in> set rs. status r \<noteq> SUCCESS
                              then COMPLETED_WITH_ERRORS else WF_SUCCESS)"
    by (rule run_workflow_gathered)
  have entries: "ran (results st) = set rs"
    if fresh: "results (current_state m) = Map.empty" and dist: "distinct (map context_id cmds)"
  proof (intro set_eqI iffI)
    fix r assume "r \<in> ran (results st)"
    then obtain k where "results (current_state (manager s)) k = Some r"
      by (auto simp: ran_def res)
    with run_events_recorded [OF ev dispatch_recorded [OF fresh]]
    obtain i where i: "i < length cmds" "tasks s ! i = Returned r"
      unfolding results_recorded_def by blast
    with all have "r = rs ! i" by auto
    with i lrs show "r \<in> set rs" by simp
  next
    fix r assume "r \<in> set rs"
    with lrs obtain i where i: "i < length cmds" "r = rs ! i"
      by (auto simp: in_set_conv_nth)
    with all run_events_exact [OF ev dispatch_exact(1) dispatch_exact(2) dist]
    have "results st (context_id (cmds ! i)) = Some r"
      by (simp add: results_exact_def res)
    then show "r \<in> ran (results st)" by (auto simp: ran_def)
  qed
  from lrs out st entries show ?thesis by blast
qed

theorem run_workflow_final_status_witness:
  "(\<exists>st. run_workflow_with succeeding_runner two_permit_manager batch batch_envs
             [Enter 1, Enter 0, Leave 1, Leave 0] = Some st
         \<and> wf_status st = WF_SUCCESS
         \<and> ran (results st) = {success_outcome})
   \<and> (\<exists>st. run_workflow ascii_runtime two_permit_manager batch batch_envs
             [Enter 1, Enter 0, Leave 1, Leave 0] = Some st
         \<and> wf_status st = COMPLETED_WITH_ERRORS
         \<and> ran (results st) = {echo_outcome, false_outcome})"
proof -
  have two: "xs = [xs ! 0, xs ! 1]" if "length xs = 2" for xs :: "ExecutionResult list"
    using that by (cases xs; cases "tl xs") auto
  have fresh: "results (current_state two_permit_manager) = Map.empty"
    by (simp add: two_permit_manager_def)
  have dist: "distinct (map context_id batch)"
    by (simp add: batch_def echo_request_def false_request_def)
  have len: "length batch = 2" by (simp add: batch_def)
  obtain st1 where a1: "run_workflow_with succeeding_runner two_permit_manager batch batch_envs
                          [Enter 1, Enter 0, Leave 1, Leave 0] = Some st1"
    and a2: "wf_status st1 = WF_SUCCESS"
    by (simp add: workflow_with_defs)
  from a2 have a3: "wf_status st1 \<noteq> FATAL_ERROR" by simp
  from run_workflow_final_status [OF a1 a3] fresh dist len obtain rs1
    where "length rs1 = 2"
      and "\<forall>i<2. succeeding_runner (batch ! i) (batch_envs i) = Inr (rs1 ! i)"
      and "ran (results st1) = set rs1" by auto
  then have "rs1 ! 0 = success_outcome" "rs1 ! 1 = success_outcome" "rs1 = [rs1 ! 0, rs1 ! 1]"
    using two [of rs1] by (auto simp: succeeding_runner_def)
  with \<open>ran (results st1) = set rs1\<close> have a4: "ran (results st1) = {success_outcome}"
    by (metis empty_set insert_absorb2 list.simps(15))
  obtain st2 where b0: "run_workflow ascii_runtime two_permit_manager batch batch_envs
                          [Enter 1, Enter 0, Leave 1, Leave 0] = Some st2"
    and b2: "wf_status st2 = COMPLETED_WITH_ERRORS"
    by (simp add: workflow_defs workflow_with_defs runner_defs example_defs)
  from b0 have b1: "run_workflow_with (execute_async ascii_runtime) two_permit_manager batch
                      batch_envs [Enter 1, Enter 0, Leave 1, Leave 0] = Some st2"
    by (simp add: run_workflow_instance)
  from b2 have b3: "wf_status st2 \<noteq> FATAL_ERROR" by simp
  have e0: "execute_async ascii_runtime (batch ! 0) (batch_envs 0) = Inr echo_outcome"
    by (simp add: batch_def batch_envs_def echo_outcome_def runner_defs example_defs)
  have e1: "execute_async ascii_runtime (batch ! 1) (batch_envs 1) = Inr false_outcome"
    by (simp add: batch_def batch_envs_def false_outcome_def runner_defs example_defs)
  from run_workflow_final_status [OF b1 b3] fresh dist len obtain rs2
    where "length rs2 = 2"
      and r2: "\<forall>i<2. execute_async ascii_runtime (batch ! i) (batch_envs i) = Inr (rs2 ! i)"
      and "ran (results st2) = set rs2" by auto
  from r2 e0 e1 have "rs2 ! 0 = echo_outcome" "rs2 ! 1 = false_outcome" by auto
  with two [of rs2] \<open>length rs2 = 2\<close> \<open>ran (results st2) = set rs2\<close>
  have b4: "ran (results st2) = {echo_outcome, false_outcome}"
    by (metis empty_set list.simps(15))
  from a1 a2 a4 b0 b2 b4 show ?thesis by blast
qed

text \<open>
  With \<open>execute_async\<close> as it is (see C1), no result has status \<open>SUCCESS\<close>: the empty
  batch ends with status \<open>SUCCESS\<close>, and no other batch does.
\<close>

lemma run_workflow_empty_batch:
  "map_option wf_status (run_workflow rt two_permit_manager [] envs []) = Some WF_SUCCESS"
  by (simp add: workflow_defs workflow_with_defs)

lemma run_workflow_never_success:
  assumes "run_workflow rt m cmds envs schedule = Some st" and "cmds \<noteq> []"
  shows "wf_status st \<noteq> WF_SUCCESS"
proof (cases "wf_status st = FATAL_ERROR")
  case True
  then show ?thesis by simp
next
  case False
  from assms(1) have "run_workflow_with (execute_async rt) m cmds envs schedule = Some st"
    by (simp add: run_workflow_instance)
  from this False obtain s rs where lrs: "length rs = length cmds"
    and out: "\<forall>i<length cmds. execute_async rt (cmds ! i) (envs i) = Inr (rs ! i)"
    and st: "wf_status st = (if \<exists>r \<in> set rs. status r \<noteq> SUCCESS
                              then COMPLETED_WITH_ERRORS else WF_SUCCESS)"
    by (rule run_workflow_gathered)
  from assms(2) lrs have 0: "0 < length cmds" "rs ! 0 \<in> set rs" by auto
  with out have "execute_async rt (cmds ! 0) (envs 0) = Inr (rs ! 0)" by simp
  from execute_async_never_success [OF this] have "status (rs ! 0) \<noteq> SUCCESS" by auto
  with 0(2) st show ?thesis by auto
qed

end
